theory Spec2Isabelle
  imports Main "HOL-Library.Word" "HOL-Library.Monad_Syntax"
begin

unbundle bit_operations_syntax

section \<open>Data model\<close>

text \<open>
  A Go \<open>rune\<close> is an \<open>int32\<close>. The code only compares runes with constants and with
  table entries and never computes with them, so a rune is modelled as an integer; where a
  statement is about every 32-bit input, the bounds of \<open>int32\<close> are written out.
  A Go \<open>string\<close> is a sequence of bytes.
\<close>

type_synonym rune = int
type_synonym byte = "8 word"

text \<open>\<open>type runeRange struct { first rune; last rune }\<close>. The field \<open>last\<close> is named
  \<open>lastr\<close> here, since \<open>last\<close> is the list function of HOL.\<close>

record runeRange =
  first :: rune
  lastr :: rune

abbreviation rr :: "rune \<Rightarrow> rune \<Rightarrow> runeRange" where
  "rr a b \<equiv> \<lparr>first = a, lastr = b\<rparr>"

section \<open>The width tables of \<open>tables.go\<close>\<close>

text \<open>
  The three tables of \<open>tables.go\<close>, entry by entry in the order of the source file. No
  function reads them: the searches go through the generated tables (see below). They
  serve here as concrete tables on which the functions are evaluated.
\<close>

definition wideTable :: "runeRange list" where
  "wideTable =
    [rr 0x3000 0x303F, rr 0x2E80 0x2E99, rr 0x2E9B 0x2EF3,
     rr 0x2F00 0x2FD5, rr 0x31C0 0x31E3, rr 0x3200 0x321E,
     rr 0x3220 0x3247, rr 0x3250 0x4DBE, rr 0xFE30 0xFE4F,
     rr 0xFF01 0xFF60, rr 0xFFE0 0xFFE6, rr 0x1B000 0x1B0FF,
     rr 0x20000 0x2A6DF, rr 0x2A700 0x2B73F, rr 0x2B740 0x2B81F,
     rr 0x2B820 0x2CEAF, rr 0x2CEB0 0x2EBEF, rr 0x30000 0x3134F,
     rr 0x2600 0x26FF, rr 0x2700 0x27BF, rr 0x1F000 0x1F02F,
     rr 0x1F0A0 0x1F0FF, rr 0x1FA00 0x1FA6F, rr 0x1FA70 0x1FAFF,
     rr 0x10000 0x1007F]"

definition zeroWidthTable :: "runeRange list" where
  "zeroWidthTable =
    [rr 0x0080 0x009F, rr 0x0300 0x036F, rr 0x1AB0 0x1AFF,
     rr 0x0591 0x05BD, rr 0x05BF 0x05BF, rr 0x05C1 0x05C2,
     rr 0x05C4 0x05C5, rr 0x05C7 0x05C7, rr 0x0610 0x061A,
     rr 0x064B 0x065F, rr 0x0670 0x0670, rr 0x06D6 0x06DC,
     rr 0x06DF 0x06E4, rr 0x06E7 0x06E8, rr 0x06EA 0x06ED,
     rr 0x0901 0x0902, rr 0x093A 0x093A, rr 0x093C 0x093C,
     rr 0x0941 0x0948, rr 0x094D 0x094D, rr 0x0951 0x0957,
     rr 0x0962 0x0963, rr 0x00AD 0x00AD, rr 0x200B 0x200F,
     rr 0x20D0 0x20FF, rr 0xFE20 0xFE2F, rr 0xFE30 0xFE2F,
     rr 0xFEFF 0xFEFF]"

definition ambiguousTable :: "runeRange list" where
  "ambiguousTable =
    [rr 0x00A1 0x00A1, rr 0x00A4 0x00A4, rr 0x00A7 0x00A8,
     rr 0x00AA 0x00AA, rr 0x00AD 0x00AE, rr 0x00B0 0x00B4,
     rr 0x00B6 0x00BA, rr 0x00BC 0x00BF, rr 0x00C6 0x00C6,
     rr 0x00D0 0x00D0, rr 0x00D7 0x00D8, rr 0x00DE 0x00E1,
     rr 0x00E6 0x00E6, rr 0x00E8 0x00EA, rr 0x00EC 0x00ED,
     rr 0x00F0 0x00F0, rr 0x00F2 0x00F3, rr 0x00F7 0x00FA,
     rr 0x00FC 0x00FC, rr 0x00FE 0x00FE, rr 0x0101 0x0101,
     rr 0x0111 0x0111, rr 0x0113 0x0113, rr 0x011B 0x011B,
     rr 0x0126 0x0127, rr 0x012B 0x012B, rr 0x0131 0x0133,
     rr 0x0138 0x0138, rr 0x013F 0x0142, rr 0x0144 0x0144,
     rr 0x0148 0x014B, rr 0x014D 0x014D, rr 0x0152 0x0153,
     rr 0x0166 0x0167, rr 0x016B 0x016B, rr 0x01CE 0x01CE,
     rr 0x01D0 0x01D0, rr 0x01D2 0x01D2, rr 0x01D4 0x01D4,
     rr 0x01D6 0x01D6, rr 0x01D8 0x01D8, rr 0x01DA 0x01DA,
     rr 0x01DC 0x01DC, rr 0x2500 0x257F, rr 0x2580 0x259F,
     rr 0x25A0 0x25FF]"

section \<open>Binary search over a range table\<close>

text \<open>
  Go's integer division truncates towards zero, HOL's \<open>div\<close> rounds down; \<open>quo\<close> is
  Go's.
\<close>

definition quo :: "int \<Rightarrow> int \<Rightarrow> int" where
  "quo a b = (if (a < 0) = (b < 0) then \<bar>a\<bar> div \<bar>b\<bar> else - (\<bar>a\<bar> div \<bar>b\<bar>))"

text \<open>
  The loop of \<open>binarySearch\<close>, with \<open>low\<close> and \<open>high\<close> as Go \<open>int\<close>s (\<open>high\<close> starts
  at \<open>len(table) - 1\<close>, which is \<open>-1\<close> for an empty table). Reading \<open>table[mid]\<close> outside
  the table panics in Go: that is the result \<open>None\<close>.
\<close>

function binarySearch_loop :: "rune \<Rightarrow> runeRange list \<Rightarrow> int \<Rightarrow> int \<Rightarrow> bool option" where
  "binarySearch_loop r table low high =
     (if low \<le> high then
        (let mid = quo (low + high) 2 in
         if mid < 0 \<or> int (length table) \<le> mid then None
         else
           (let e = table ! nat mid in
            if r < first e then binarySearch_loop r table low (mid - 1)
            else if r > lastr e then binarySearch_loop r table (mid + 1) high
            else Some True))
      else Some False)"
  by pat_completeness auto
termination
  by (relation "measure (\<lambda>(r, table, low, high). nat (high - low + 1))")
     (auto simp: quo_def)

declare binarySearch_loop.simps [simp del]

definition binarySearch :: "rune \<Rightarrow> runeRange list \<Rightarrow> bool option" where
  "binarySearch r table = binarySearch_loop r table 0 (int (length table) - 1)"

section \<open>Properties of a range table\<close>

text \<open>\<open>rangesOverlap\<close> of the table generator.\<close>

definition rangesOverlap :: "runeRange \<Rightarrow> runeRange \<Rightarrow> bool" where
  "rangesOverlap a b = (first a \<le> lastr b \<and> first b \<le> lastr a)"

text \<open>Two ranges are adjacent when one starts right after the other ends.\<close>

definition rangesAdjacent :: "runeRange \<Rightarrow> runeRange \<Rightarrow> bool" where
  "rangesAdjacent a b = (lastr a + 1 = first b \<or> lastr b + 1 = first a)"

text \<open>\<open>eachPair P t\<close>: \<open>P\<close> holds of every two entries at different positions of \<open>t\<close>,
  the earlier one first.\<close>

fun eachPair :: "(runeRange \<Rightarrow> runeRange \<Rightarrow> bool) \<Rightarrow> runeRange list \<Rightarrow> bool" where
  "eachPair P [] = True"
| "eachPair P (a # t) = (list_all (P a) t \<and> eachPair P t)"

definition sortedByFirst :: "runeRange list \<Rightarrow> bool" where
  "sortedByFirst t = eachPair (\<lambda>a b. first a \<le> first b) t"

definition firstLeLast :: "runeRange list \<Rightarrow> bool" where
  "firstLeLast t = list_all (\<lambda>e. first e \<le> lastr e) t"

definition noOverlap :: "runeRange list \<Rightarrow> bool" where
  "noOverlap t = eachPair (\<lambda>a b. \<not> rangesOverlap a b) t"

definition noAdjacent :: "runeRange list \<Rightarrow> bool" where
  "noAdjacent t = eachPair (\<lambda>a b. \<not> rangesAdjacent a b) t"

text \<open>The invariants of a range table that binary search relies on: sorted ascending
  by \<open>first\<close>, pairwise disjoint, and \<open>first \<le> last\<close> in each entry.\<close>

definition rangeTableInv :: "runeRange list \<Rightarrow> bool" where
  "rangeTableInv t = (sortedByFirst t \<and> noOverlap t \<and> firstLeLast t)"

text \<open>Membership of a code point in some interval of a table.\<close>

definition inTable :: "rune \<Rightarrow> runeRange list \<Rightarrow> bool" where
  "inTable cp t = list_ex (\<lambda>e. first e \<le> cp \<and> cp \<le> lastr e) t"

section \<open>What the code takes from outside\<close>

text \<open>
  \<open>RuneWidth\<close> and \<open>runeWidthInternal\<close> search the tables \<open>wideTableGenerated\<close>,
  \<open>zeroWidthTableGenerated\<close> and \<open>ambiguousTableGenerated\<close>, which the table generator
  writes to \<open>tables_generated.go\<close>, and \<open>RuneWidth\<close> asks the standard library's
  \<open>unicode.In(r, unicode.Mn, unicode.Me, unicode.Mc)\<close>. The generated file is not
  among the sources of the package and \<open>unicode.In\<close> belongs to the standard library,
  so the functions take both as a parameter: any three tables, and any predicate on
  runes.
\<close>

record externals =
  wideTableGenerated :: "runeRange list"
  zeroWidthTableGenerated :: "runeRange list"
  ambiguousTableGenerated :: "runeRange list"
  unicodeIn_Mn_Me_Mc :: "rune \<Rightarrow> bool"

section \<open>The width of a rune\<close>

definition binarySearchWidth :: "externals \<Rightarrow> rune \<Rightarrow> int option" where
  "binarySearchWidth x r =
     do {
       w \<leftarrow> binarySearch r (wideTableGenerated x);
       if w then Some 2
       else do {
         z \<leftarrow> binarySearch r (zeroWidthTableGenerated x);
         if z then Some 0
         else do {
           a \<leftarrow> binarySearch r (ambiguousTableGenerated x);
           if a then Some 1 else Some 1
         }
       }
     }"

definition RuneWidth :: "externals \<Rightarrow> rune \<Rightarrow> int option" where
  "RuneWidth x r =
     (if r < 0x80 then
        (if r < 0x20 then Some 0
         else if r = 0x7F then Some 0
         else Some 1)
      else if r \<ge> 0x4E00 \<and> r \<le> 0x9FFF then Some 2
      else if r \<ge> 0xAC00 \<and> r \<le> 0xD7AF then Some 2
      else if r \<ge> 0x3040 \<and> r \<le> 0x312F then Some 2
      else if r \<ge> 0xF900 \<and> r \<le> 0xFAFF then Some 2
      else if r \<ge> 0x1F600 \<and> r \<le> 0x1F64F then Some 2
      else if r \<ge> 0x1F300 \<and> r \<le> 0x1F5FF then Some 2
      else if r \<ge> 0x1F680 \<and> r \<le> 0x1F6FF then Some 2
      else if r \<ge> 0x1F900 \<and> r \<le> 0x1F9FF then Some 2
      else if r \<ge> 0x2600 \<and> r \<le> 0x26FF then Some 2
      else if r \<ge> 0x2700 \<and> r \<le> 0x27BF then Some 2
      else if r = 0x200B then Some 0
      else if r = 0x200C then Some 0
      else if r = 0x200D then Some 0
      else if r \<ge> 0xFE00 \<and> r \<le> 0xFE0F then Some 0
      else if r \<ge> 0xE0100 \<and> r \<le> 0xE01EF then Some 0
      else if unicodeIn_Mn_Me_Mc x r then Some 0
      else binarySearchWidth x r)"

section \<open>Strings\<close>

text \<open>
  \<open>[]rune(s)\<close> and \<open>for _, r := range s\<close> decode the bytes of a string as UTF-8, as the
  Go language defines it: a byte below \<open>0x80\<close> is its own rune; a lead byte followed by
  the continuation bytes it needs, the first of them within the bounds that exclude
  overlong forms, surrogates and values above \<open>0x10FFFF\<close>, yields the encoded rune;
  any other byte yields \<open>0xFFFD\<close> and is skipped alone.
\<close>

definition RuneError :: rune where
  "RuneError = 0xFFFD"

definition acceptLo :: "byte \<Rightarrow> byte" where
  "acceptLo b0 = (if b0 = 0xE0 then 0xA0 else if b0 = 0xF0 then 0x90 else 0x80)"

definition acceptHi :: "byte \<Rightarrow> byte" where
  "acceptHi b0 = (if b0 = 0xED then 0x9F else if b0 = 0xF4 then 0x8F else 0xBF)"

definition isCont :: "byte \<Rightarrow> bool" where
  "isCont b = (0x80 \<le> b \<and> b \<le> 0xBF)"

definition rune2 :: "byte \<Rightarrow> byte \<Rightarrow> rune" where
  "rune2 b0 b1 = push_bit 6 (uint (b0 AND 0x1F)) OR uint (b1 AND 0x3F)"

definition rune3 :: "byte \<Rightarrow> byte \<Rightarrow> byte \<Rightarrow> rune" where
  "rune3 b0 b1 b2 =
     push_bit 12 (uint (b0 AND 0x0F)) OR push_bit 6 (uint (b1 AND 0x3F)) OR uint (b2 AND 0x3F)"

definition rune4 :: "byte \<Rightarrow> byte \<Rightarrow> byte \<Rightarrow> byte \<Rightarrow> rune" where
  "rune4 b0 b1 b2 b3 =
     push_bit 18 (uint (b0 AND 0x07)) OR push_bit 12 (uint (b1 AND 0x3F))
       OR push_bit 6 (uint (b2 AND 0x3F)) OR uint (b3 AND 0x3F)"

fun runes_of :: "byte list \<Rightarrow> rune list" where
  "runes_of [] = []"
| "runes_of (b0 # rest) =
     (if b0 < 0x80 then uint b0 # runes_of rest
      else if 0xC2 \<le> b0 \<and> b0 \<le> 0xDF then
        (case rest of
           b1 # rest1 \<Rightarrow>
             if isCont b1 then rune2 b0 b1 # runes_of rest1
             else RuneError # runes_of rest
         | _ \<Rightarrow> RuneError # runes_of rest)
      else if 0xE0 \<le> b0 \<and> b0 \<le> 0xEF then
        (case rest of
           b1 # b2 # rest2 \<Rightarrow>
             if acceptLo b0 \<le> b1 \<and> b1 \<le> acceptHi b0 \<and> isCont b2
             then rune3 b0 b1 b2 # runes_of rest2
             else RuneError # runes_of rest
         | _ \<Rightarrow> RuneError # runes_of rest)
      else if 0xF0 \<le> b0 \<and> b0 \<le> 0xF4 then
        (case rest of
           b1 # b2 # b3 # rest3 \<Rightarrow>
             if acceptLo b0 \<le> b1 \<and> b1 \<le> acceptHi b0 \<and> isCont b2 \<and> isCont b3
             then rune4 b0 b1 b2 b3 # runes_of rest3
             else RuneError # runes_of rest
         | _ \<Rightarrow> RuneError # runes_of rest)
      else RuneError # runes_of rest)"

fun isASCIIOnly :: "byte list \<Rightarrow> bool" where
  "isASCIIOnly [] = True"
| "isASCIIOnly (b # s) = (if b \<ge> 0x80 then False else isASCIIOnly s)"

definition isRegionalIndicator :: "rune \<Rightarrow> bool" where
  "isRegionalIndicator r = (r \<ge> 0x1F1E6 \<and> r \<le> 0x1F1FF)"

section \<open>The width of a string\<close>

text \<open>The byte loop of the ASCII fast path of \<open>StringWidth\<close>; \<open>width\<close> is the
  counter.\<close>

fun asciiWidth_loop :: "byte list \<Rightarrow> int \<Rightarrow> int" where
  "asciiWidth_loop [] width = width"
| "asciiWidth_loop (b # s) width =
     (if b < 0x20 \<or> b = 0x7F then asciiWidth_loop s width
      else asciiWidth_loop s (width + 1))"

text \<open>
  The rune loop of \<open>StringWidth\<close>, by the index \<open>i\<close> as in the source: a pair of
  regional indicators counts 2 and a rune followed by a variation selector counts 1
  (\<open>0xFE0E\<close>) or 2 (\<open>0xFE0F\<close>), the index skipping the second rune; any other rune
  counts \<open>RuneWidth\<close>.
\<close>

function StringWidth_loop :: "externals \<Rightarrow> rune list \<Rightarrow> nat \<Rightarrow> int \<Rightarrow> int option" where
  "StringWidth_loop x runes i width =
     (if i < length runes then
        (let r = runes ! i in
         if isRegionalIndicator r \<and> i + 1 < length runes \<and> isRegionalIndicator (runes ! (i + 1))
         then StringWidth_loop x runes (i + 2) (width + 2)
         else if i + 1 < length runes \<and> runes ! (i + 1) = 0xFE0E
         then StringWidth_loop x runes (i + 2) (width + 1)
         else if i + 1 < length runes \<and> runes ! (i + 1) = 0xFE0F
         then StringWidth_loop x runes (i + 2) (width + 2)
         else
           (case RuneWidth x r of
              None \<Rightarrow> None
            | Some w \<Rightarrow> StringWidth_loop x runes (i + 1) (width + w)))
      else Some width)"
  by pat_completeness auto
termination
  by (relation "measure (\<lambda>(x, runes, i, width). length runes - i)") auto

declare StringWidth_loop.simps [simp del]

definition StringWidth :: "externals \<Rightarrow> byte list \<Rightarrow> int option" where
  "StringWidth x s =
     (if isASCIIOnly s then Some (asciiWidth_loop s 0)
      else StringWidth_loop x (runes_of s) 0 0)"

section \<open>Options\<close>

type_synonym EAWidth = int

definition EANarrow :: EAWidth where
  "EANarrow = 1"

definition EAWide :: EAWidth where
  "EAWide = 2"

record Options =
  EastAsianAmbiguous :: EAWidth
  EmojiPresentation :: bool

text \<open>\<open>type Option func(*Options)\<close>: an option updates the options in place; here it
  returns the updated options.\<close>

type_synonym Option = "Options \<Rightarrow> Options"

definition defaultOptions :: Options where
  "defaultOptions = \<lparr>EastAsianAmbiguous = EANarrow, EmojiPresentation = True\<rparr>"

definition WithEastAsianAmbiguous :: "EAWidth \<Rightarrow> Option" where
  "WithEastAsianAmbiguous width = (\<lambda>options. options\<lparr>EastAsianAmbiguous := width\<rparr>)"

definition WithEmojiPresentation :: "bool \<Rightarrow> Option" where
  "WithEmojiPresentation emoji = (\<lambda>options. options\<lparr>EmojiPresentation := emoji\<rparr>)"

text \<open>\<open>options := defaultOptions(); for _, opt := range opts { opt(&options) }\<close>\<close>

definition buildOptions :: "Option list \<Rightarrow> Options" where
  "buildOptions opts = foldl (\<lambda>options opt. opt options) defaultOptions opts"

definition binarySearchWidthInternal :: "externals \<Rightarrow> rune \<Rightarrow> int option" where
  "binarySearchWidthInternal x r =
     do {
       w \<leftarrow> binarySearch r (wideTableGenerated x);
       if w then Some 2
       else do {
         z \<leftarrow> binarySearch r (zeroWidthTableGenerated x);
         if z then Some 0
         else do {
           a \<leftarrow> binarySearch r (ambiguousTableGenerated x);
           if a then Some (- 1) else Some 1
         }
       }
     }"

definition runeWidthInternal :: "externals \<Rightarrow> rune \<Rightarrow> int option" where
  "runeWidthInternal x r =
     (if r < 0x80 then
        (if r < 0x20 then Some 0
         else if r = 0x7F then Some 0
         else Some 1)
      else if r \<ge> 0x4E00 \<and> r \<le> 0x9FFF then Some 2
      else if r \<ge> 0xAC00 \<and> r \<le> 0xD7AF then Some 2
      else if r \<ge> 0x3040 \<and> r \<le> 0x30FF then Some 2
      else if r \<ge> 0xF900 \<and> r \<le> 0xFAFF then Some 2
      else if r \<ge> 0x1F600 \<and> r \<le> 0x1F64F then Some 2
      else if r \<ge> 0x1F300 \<and> r \<le> 0x1F5FF then Some 2
      else if r \<ge> 0x1F680 \<and> r \<le> 0x1F6FF then Some 2
      else if r \<ge> 0x1F900 \<and> r \<le> 0x1F9FF then Some 2
      else if r \<ge> 0x2600 \<and> r \<le> 0x26FF then Some 2
      else if r \<ge> 0x2700 \<and> r \<le> 0x27BF then Some 2
      else if r = 0x200D \<or> r = 0x200C then Some 0
      else if r \<ge> 0xFE00 \<and> r \<le> 0xFE0F then Some 0
      else if r \<ge> 0xE0100 \<and> r \<le> 0xE01EF then Some 0
      else if (r \<ge> 0x0300 \<and> r \<le> 0x036F) \<or>
              (r \<ge> 0x1AB0 \<and> r \<le> 0x1AFF) \<or>
              (r \<ge> 0x1DC0 \<and> r \<le> 0x1DFF) \<or>
              (r \<ge> 0x20D0 \<and> r \<le> 0x20FF) \<or>
              (r \<ge> 0xFE20 \<and> r \<le> 0xFE2F) then Some 0
      else binarySearchWidthInternal x r)"

definition RuneWidthWithOptions :: "externals \<Rightarrow> rune \<Rightarrow> Option list \<Rightarrow> int option" where
  "RuneWidthWithOptions x r opts =
     (let options = buildOptions opts in
      do {
        width \<leftarrow> runeWidthInternal x r;
        if width = - 1 then Some (EastAsianAmbiguous options) else Some width
      })"

text \<open>The rune loop of \<open>StringWidthWithOptions\<close>; \<open>width\<close> is the running sum.\<close>

fun StringWidthWithOptions_loop ::
  "externals \<Rightarrow> Options \<Rightarrow> rune list \<Rightarrow> int \<Rightarrow> int option" where
  "StringWidthWithOptions_loop x options [] width = Some width"
| "StringWidthWithOptions_loop x options (r # runes) width =
     (case runeWidthInternal x r of
        None \<Rightarrow> None
      | Some w \<Rightarrow>
          if w = - 1
          then StringWidthWithOptions_loop x options runes (width + EastAsianAmbiguous options)
          else StringWidthWithOptions_loop x options runes (width + w))"

definition StringWidthWithOptions :: "externals \<Rightarrow> byte list \<Rightarrow> Option list \<Rightarrow> int option" where
  "StringWidthWithOptions x s opts =
     (let options = buildOptions opts in
      if isASCIIOnly s then Some (int (length s))
      else StringWidthWithOptions_loop x options (runes_of s) 0)"

section \<open>The table generator\<close>

text \<open>
  \<open>cmd/generate-tables/main.go\<close> writes the three tables that the searches read. It
  parses the ranges of two Unicode data files, which are not part of the package: the
  result of the parsing is a parameter here. Its zero-width ranges are a constant of
  the generator.
\<close>

record unicodeData =
  eawWide :: "runeRange list"
  eawAmbiguous :: "runeRange list"
  emojiRanges :: "runeRange list"

definition generateZeroWidthRanges :: "runeRange list" where
  "generateZeroWidthRanges =
    [rr 0x0000 0x001F, rr 0x007F 0x007F, rr 0x0080 0x009F,
     rr 0x00AD 0x00AD, rr 0x0300 0x036F, rr 0x0591 0x05BD,
     rr 0x05BF 0x05BF, rr 0x05C1 0x05C2, rr 0x05C4 0x05C5,
     rr 0x05C7 0x05C7, rr 0x0610 0x061A, rr 0x064B 0x065F,
     rr 0x0670 0x0670, rr 0x06D6 0x06DC, rr 0x06DF 0x06E4,
     rr 0x06E7 0x06E8, rr 0x06EA 0x06ED, rr 0x0901 0x0902,
     rr 0x093A 0x093A, rr 0x093C 0x093C, rr 0x0941 0x0948,
     rr 0x094D 0x094D, rr 0x0951 0x0957, rr 0x0962 0x0963,
     rr 0x200B 0x200F, rr 0x20D0 0x20FF, rr 0xFE00 0xFE0F,
     rr 0xFE20 0xFE2F, rr 0xFEFF 0xFEFF, rr 0xE0100 0xE01EF]"

text \<open>\<open>removeOverlappingRanges\<close> keeps the ranges that overlap no hot path.\<close>

fun removeOverlappingRanges :: "runeRange list \<Rightarrow> runeRange list \<Rightarrow> runeRange list" where
  "removeOverlappingRanges [] hotPaths = []"
| "removeOverlappingRanges (e # ranges) hotPaths =
     (if list_ex (\<lambda>hp. rangesOverlap e hp) hotPaths
      then removeOverlappingRanges ranges hotPaths
      else e # removeOverlappingRanges ranges hotPaths)"

text \<open>The list \<open>hotPaths\<close> of each of the three filters.\<close>

definition filterHotPaths_hotPaths :: "runeRange list" where
  "filterHotPaths_hotPaths =
    [rr 0x0000 0x007F, rr 0x4E00 0x9FFF, rr 0xAC00 0xD7AF,
     rr 0x3040 0x30FF, rr 0xF900 0xFAFF, rr 0x1F600 0x1F64F,
     rr 0x1F300 0x1F5FF, rr 0x1F680 0x1F6FF, rr 0x1F900 0x1F9FF,
     rr 0x2600 0x26FF, rr 0x2700 0x27BF]"

definition filterZeroWidthHotPaths_hotPaths :: "runeRange list" where
  "filterZeroWidthHotPaths_hotPaths =
    [rr 0x0000 0x001F, rr 0x007F 0x007F, rr 0x200D 0x200D,
     rr 0x200C 0x200C, rr 0xFE00 0xFE0F, rr 0xE0100 0xE01EF]"

definition filterAmbiguousHotPaths_hotPaths :: "runeRange list" where
  "filterAmbiguousHotPaths_hotPaths = [rr 0x0000 0x007F]"

definition filterHotPaths :: "runeRange list \<Rightarrow> runeRange list" where
  "filterHotPaths ranges = removeOverlappingRanges ranges filterHotPaths_hotPaths"

definition filterZeroWidthHotPaths :: "runeRange list \<Rightarrow> runeRange list" where
  "filterZeroWidthHotPaths ranges =
     removeOverlappingRanges ranges filterZeroWidthHotPaths_hotPaths"

definition filterAmbiguousHotPaths :: "runeRange list \<Rightarrow> runeRange list" where
  "filterAmbiguousHotPaths ranges =
     removeOverlappingRanges ranges filterAmbiguousHotPaths_hotPaths"

definition mergeRanges :: "runeRange list \<Rightarrow> runeRange list \<Rightarrow> runeRange list" where
  "mergeRanges a b = a @ b"

text \<open>\<open>last.last+1\<close> is an addition of \<open>int32\<close>: it wraps at the largest value.\<close>

definition succ32 :: "rune \<Rightarrow> rune" where
  "succ32 r = (if r = 2 ^ 31 - 1 then - (2 ^ 31) else r + 1)"

text \<open>
  The merging loop of \<open>optimizeRanges\<close> over the sorted ranges after the first:
  \<open>result\<close> is the slice built so far, whose last element the loop extends in place
  when the current range overlaps it or starts right after it. The slice starts with
  one element and only grows, so that \<open>result[len(result)-1]\<close> is always in range.
\<close>

fun optimizeRanges_loop :: "runeRange list \<Rightarrow> runeRange list \<Rightarrow> runeRange list" where
  "optimizeRanges_loop result [] = result"
| "optimizeRanges_loop result (current # ranges) =
     (let l = last result in
      if first current \<le> succ32 (lastr l) then
        (if lastr current > lastr l
         then optimizeRanges_loop (butlast result @ [l\<lparr>lastr := lastr current\<rparr>]) ranges
         else optimizeRanges_loop result ranges)
      else optimizeRanges_loop (result @ [current]) ranges)"

text \<open>
  \<open>optimizeRanges\<close>. The call of \<open>sort.Slice\<close> with the comparison of the \<open>first\<close>
  fields is the standard library's; it is modelled by \<open>sort_key first\<close>, and the
  proofs use of it only that the result is a rearrangement of the ranges in ascending
  order of \<open>first\<close>.
\<close>

definition optimizeRanges :: "runeRange list \<Rightarrow> runeRange list" where
  "optimizeRanges ranges =
     (if ranges = [] then ranges
      else
        (let sorted = sort_key first ranges in
         optimizeRanges_loop [hd sorted] (tl sorted)))"

text \<open>The three tables as \<open>main\<close> computes them before it writes them out.\<close>

definition wideRanges_generated :: "unicodeData \<Rightarrow> runeRange list" where
  "wideRanges_generated d =
     optimizeRanges (filterHotPaths (mergeRanges (eawWide d) (emojiRanges d)))"

definition zeroWidthRanges_generated :: "runeRange list" where
  "zeroWidthRanges_generated =
     optimizeRanges (filterZeroWidthHotPaths generateZeroWidthRanges)"

definition ambiguousRanges_generated :: "unicodeData \<Rightarrow> runeRange list" where
  "ambiguousRanges_generated d = optimizeRanges (filterAmbiguousHotPaths (eawAmbiguous d))"

text \<open>The parameters of the width functions with the generated tables in them.\<close>

definition generatedExternals :: "unicodeData \<Rightarrow> (rune \<Rightarrow> bool) \<Rightarrow> externals" where
  "generatedExternals d mark =
     \<lparr>wideTableGenerated = wideRanges_generated d,
      zeroWidthTableGenerated = zeroWidthRanges_generated,
      ambiguousTableGenerated = ambiguousRanges_generated d,
      unicodeIn_Mn_Me_Mc = mark\<rparr>"

section \<open>Notions used to state the properties\<close>

text \<open>
  The tiers of \<open>RuneWidth\<close> that come before the search, each with the comparisons of
  the source. The zero-width tier ends with the test of \<open>unicode.In\<close>.
\<close>

definition asciiTier :: "rune \<Rightarrow> bool" where
  "asciiTier r = (r < 0x80)"

definition hotWideTier :: "rune \<Rightarrow> bool" where
  "hotWideTier r =
     ((r \<ge> 0x4E00 \<and> r \<le> 0x9FFF) \<or> (r \<ge> 0xAC00 \<and> r \<le> 0xD7AF) \<or>
      (r \<ge> 0x3040 \<and> r \<le> 0x312F) \<or> (r \<ge> 0xF900 \<and> r \<le> 0xFAFF))"

definition hotEmojiTier :: "rune \<Rightarrow> bool" where
  "hotEmojiTier r =
     ((r \<ge> 0x1F600 \<and> r \<le> 0x1F64F) \<or> (r \<ge> 0x1F300 \<and> r \<le> 0x1F5FF) \<or>
      (r \<ge> 0x1F680 \<and> r \<le> 0x1F6FF) \<or> (r \<ge> 0x1F900 \<and> r \<le> 0x1F9FF) \<or>
      (r \<ge> 0x2600 \<and> r \<le> 0x26FF) \<or> (r \<ge> 0x2700 \<and> r \<le> 0x27BF))"

definition hotZeroWidthTier :: "externals \<Rightarrow> rune \<Rightarrow> bool" where
  "hotZeroWidthTier x r =
     (r = 0x200B \<or> r = 0x200C \<or> r = 0x200D \<or>
      (r \<ge> 0xFE00 \<and> r \<le> 0xFE0F) \<or> (r \<ge> 0xE0100 \<and> r \<le> 0xE01EF) \<or>
      unicodeIn_Mn_Me_Mc x r)"

text \<open>The comparisons of \<open>runeWidthInternal\<close> that come before its search.\<close>

definition internalHotPath :: "rune \<Rightarrow> bool" where
  "internalHotPath r =
     (r < 0x80 \<or>
      (r \<ge> 0x4E00 \<and> r \<le> 0x9FFF) \<or> (r \<ge> 0xAC00 \<and> r \<le> 0xD7AF) \<or>
      (r \<ge> 0x3040 \<and> r \<le> 0x30FF) \<or> (r \<ge> 0xF900 \<and> r \<le> 0xFAFF) \<or>
      hotEmojiTier r \<or>
      r = 0x200D \<or> r = 0x200C \<or>
      (r \<ge> 0xFE00 \<and> r \<le> 0xFE0F) \<or> (r \<ge> 0xE0100 \<and> r \<le> 0xE01EF) \<or>
      (r \<ge> 0x0300 \<and> r \<le> 0x036F) \<or> (r \<ge> 0x1AB0 \<and> r \<le> 0x1AFF) \<or>
      (r \<ge> 0x1DC0 \<and> r \<le> 0x1DFF) \<or> (r \<ge> 0x20D0 \<and> r \<le> 0x20FF) \<or>
      (r \<ge> 0xFE20 \<and> r \<le> 0xFE2F))"

text \<open>The ranges read from the data files are ranges of code points.\<close>

definition validRanges :: "runeRange list \<Rightarrow> bool" where
  "validRanges t = list_all (\<lambda>e. 0 \<le> first e \<and> first e \<le> lastr e \<and> lastr e \<le> 0x10FFFF) t"

definition validData :: "unicodeData \<Rightarrow> bool" where
  "validData d = (validRanges (eawWide d) \<and> validRanges (eawAmbiguous d) \<and> validRanges (emojiRanges d))"

text \<open>The sum of \<open>RuneWidth\<close> over the runes of a sequence, one by one.\<close>

fun sumRuneWidth :: "externals \<Rightarrow> rune list \<Rightarrow> int option" where
  "sumRuneWidth x [] = Some 0"
| "sumRuneWidth x (r # runes) =
     do { w \<leftarrow> RuneWidth x r; t \<leftarrow> sumRuneWidth x runes; Some (w + t) }"

text \<open>The number of bytes of an ASCII string that are neither control characters
  (below \<open>0x20\<close>) nor DELETE (\<open>0x7F\<close>).\<close>

definition countPrintable :: "byte list \<Rightarrow> int" where
  "countPrintable s = int (length (filter (\<lambda>b. \<not> (b < 0x20 \<or> b = 0x7F)) s))"

text \<open>A code point is of the ambiguous class when an interval of the ambiguous table
  contains it.\<close>

definition ambiguousClass :: "externals \<Rightarrow> rune \<Rightarrow> bool" where
  "ambiguousClass x r = inTable r (ambiguousTableGenerated x)"

text \<open>A code point is claimed before the ambiguous table is searched when a comparison
  of \<open>runeWidthInternal\<close> decides it or the wide or the zero-width table contains it.\<close>

definition claimedEarlier :: "externals \<Rightarrow> rune \<Rightarrow> bool" where
  "claimedEarlier x r =
     (internalHotPath r \<or> inTable r (wideTableGenerated x) \<or> inTable r (zeroWidthTableGenerated x))"

text \<open>\<open>runeWidthInternal\<close> reports a rune as ambiguous by the value \<open>-1\<close>.\<close>

definition reportsAmbiguous :: "externals \<Rightarrow> rune \<Rightarrow> bool" where
  "reportsAmbiguous x r = (runeWidthInternal x r = Some (- 1))"

text \<open>The surrogate range.\<close>

definition isSurrogate :: "rune \<Rightarrow> bool" where
  "isSurrogate r = (0xD800 \<le> r \<and> r \<le> 0xDFFF)"

text \<open>
  Two instances of the outside parameters, for evaluating the functions on concrete
  inputs. \<open>legacyExternals\<close> puts the three tables of \<open>tables.go\<close> in the place of the
  generated ones, with a mark predicate that holds of the combining diacritical marks
  \<open>0x0300..0x036F\<close>. \<open>flagExternals\<close> is the same with a wide table that lists the
  regional indicators, which the generator takes from \<open>emoji-data.txt\<close> into the wide
  table.
\<close>

definition legacyExternals :: externals where
  "legacyExternals =
     \<lparr>wideTableGenerated = wideTable,
      zeroWidthTableGenerated = zeroWidthTable,
      ambiguousTableGenerated = ambiguousTable,
      unicodeIn_Mn_Me_Mc = (\<lambda>r. 0x0300 \<le> r \<and> r \<le> 0x036F)\<rparr>"

definition flagExternals :: externals where
  "flagExternals = legacyExternals\<lparr>wideTableGenerated := [rr 0x1F1E6 0x1F1FF]\<rparr>"

text \<open>
  A sample of parsed data, in the order of the data files: wide and fullwidth ranges
  (among them the ideographic tone marks \<open>0x302A..0x302D\<close> and the Bopomofo letters
  \<open>0x3105..0x312F\<close>), ambiguous ranges (among them the plus-minus sign \<open>0x00B1\<close>, the
  combining diacritical marks \<open>0x0300..0x036F\<close> and the stars \<open>0x2605..0x2606\<close>) and
  emoji ranges (among them the regional indicators). \<open>sampleExternals\<close> holds the
  tables generated from it, with a mark predicate that holds of the combining
  diacritical marks and of the ideographic tone marks.
\<close>

definition sampleData :: unicodeData where
  "sampleData =
     \<lparr>eawWide = [rr 0x1100 0x115F, rr 0x3000 0x3000, rr 0x3001 0x3003,
                 rr 0x302A 0x302D, rr 0x3041 0x3096, rr 0x3105 0x312F,
                 rr 0x4E00 0x9FFF, rr 0xFF01 0xFF60],
      eawAmbiguous = [rr 0x00A1 0x00A1, rr 0x00B0 0x00B1, rr 0x0300 0x036F,
                      rr 0x2605 0x2606],
      emojiRanges = [rr 0x0023 0x0023, rr 0x2600 0x2604, rr 0x1F1E6 0x1F1FF,
                     rr 0x1F600 0x1F64F]\<rparr>"

definition sampleExternals :: externals where
  "sampleExternals =
     generatedExternals sampleData
       (\<lambda>r. (0x0300 \<le> r \<and> r \<le> 0x036F) \<or> (0x302A \<le> r \<and> r \<le> 0x302D))"

section \<open>Binary search: totality and correctness\<close>

lemma eachPair_nth:
  "eachPair P t \<Longrightarrow> i < j \<Longrightarrow> j < length t \<Longrightarrow> P (t ! i) (t ! j)"
proof (induction t arbitrary: i j)
  case Nil
  then show ?case by simp
next
  case (Cons a t)
  show ?case
  proof (cases i)
    case 0
    with Cons.prems obtain j' where j': "j = Suc j'" "j' < length t"
      by (cases j) auto
    from Cons.prems have "list_all (P a) t" by simp
    with j' have "P a (t ! j')" by (simp add: list_all_length)
    with 0 j' show ?thesis by simp
  next
    case (Suc i')
    with Cons.prems obtain j' where j': "j = Suc j'" "i' < j'" "j' < length t"
      by (cases j) auto
    from Cons.prems have "eachPair P t" by simp
    from Cons.IH [OF this j'(2) j'(3)] Suc j' show ?thesis by simp
  qed
qed

lemma rangeTableInv_gap:
  assumes "rangeTableInv t" "i < j" "j < length t"
  shows "lastr (t ! i) < first (t ! j)"
proof -
  from assms have s: "first (t ! i) \<le> first (t ! j)"
    unfolding rangeTableInv_def sortedByFirst_def by (blast dest: eachPair_nth)
  from assms have d: "\<not> rangesOverlap (t ! i) (t ! j)"
    unfolding rangeTableInv_def noOverlap_def by (blast dest: eachPair_nth)
  from assms have w: "first (t ! j) \<le> lastr (t ! j)"
    unfolding rangeTableInv_def firstLeLast_def by (simp add: list_all_length)
  from s d w show ?thesis by (auto simp: rangesOverlap_def)
qed

lemma quo_mid: "0 \<le> low \<Longrightarrow> low \<le> high \<Longrightarrow> low \<le> quo (low + high) 2 \<and> quo (low + high) 2 \<le> high"
  by (auto simp: quo_def)

lemma binarySearch_loop_total:
  "0 \<le> low \<Longrightarrow> high < int (length table) \<Longrightarrow> \<exists>b. binarySearch_loop r table low high = Some b"
proof (induction r table low high rule: binarySearch_loop.induct)
  case (1 r table low high)
  show ?case
  proof (cases "low \<le> high")
    case False
    then show ?thesis by (subst binarySearch_loop.simps) auto
  next
    case True
    define mid where "mid = quo (low + high) 2"
    from True "1.prems" have m: "low \<le> mid" "mid \<le> high" using quo_mid [of low high] by (simp_all add: mid_def)
    with "1.prems" have rng: "\<not> (mid < 0 \<or> int (length table) \<le> mid)" by auto
    have l: "\<exists>b. binarySearch_loop r table low (mid - 1) = Some b" if "r < first (table ! nat mid)"
      using "1.IH"(1) [OF True mid_def rng refl that] "1.prems" m by auto
    have h: "\<exists>b. binarySearch_loop r table (mid + 1) high = Some b"
      if "\<not> r < first (table ! nat mid)" "r > lastr (table ! nat mid)"
      using "1.IH"(2) [OF True mid_def rng refl that] "1.prems" m by auto
    show ?thesis
      using True rng l h
      by (subst binarySearch_loop.simps) (auto simp: Let_def mid_def [symmetric])
  qed
qed

lemma binarySearch_total: "\<exists>b. binarySearch r table = Some b"
  unfolding binarySearch_def by (rule binarySearch_loop_total) simp_all

lemma binarySearch_loop_sound:
  "binarySearch_loop r table low high = Some True \<Longrightarrow> \<exists>e \<in> set table. first e \<le> r \<and> r \<le> lastr e"
proof (induction r table low high rule: binarySearch_loop.induct)
  case (1 r table low high)
  show ?case
  proof (cases "low \<le> high")
    case False
    with "1.prems" show ?thesis by (simp add: binarySearch_loop.simps)
  next
    case True
    define mid where "mid = quo (low + high) 2"
    from "1.prems" True have rng: "\<not> (mid < 0 \<or> int (length table) \<le> mid)"
      by (subst (asm) binarySearch_loop.simps) (auto simp: Let_def mid_def split: if_splits)
    then have mem: "table ! nat mid \<in> set table" by auto
    consider (l) "r < first (table ! nat mid)"
      | (h) "\<not> r < first (table ! nat mid)" "r > lastr (table ! nat mid)"
      | (hit) "first (table ! nat mid) \<le> r" "r \<le> lastr (table ! nat mid)" by linarith
    then show ?thesis
    proof cases
      case l
      with "1.prems" True rng have "binarySearch_loop r table low (mid - 1) = Some True"
        by (subst (asm) binarySearch_loop.simps) (auto simp: Let_def mid_def)
      from "1.IH"(1) [OF True mid_def rng refl l this] show ?thesis .
    next
      case h
      with "1.prems" True rng have "binarySearch_loop r table (mid + 1) high = Some True"
        by (subst (asm) binarySearch_loop.simps) (auto simp: Let_def mid_def)
      from "1.IH"(2) [OF True mid_def rng refl h this] show ?thesis .
    next
      case hit
      with mem show ?thesis by blast
    qed
  qed
qed

lemma binarySearch_loop_correct:
  "rangeTableInv table \<Longrightarrow> 0 \<le> low \<Longrightarrow> high < int (length table)
    \<Longrightarrow> (\<forall>i. int i < low \<longrightarrow> i < length table \<longrightarrow> lastr (table ! i) < r)
    \<Longrightarrow> (\<forall>i. high < int i \<longrightarrow> i < length table \<longrightarrow> r < first (table ! i))
    \<Longrightarrow> binarySearch_loop r table low high = Some (\<exists>e \<in> set table. first e \<le> r \<and> r \<le> lastr e)"
proof (induction r table low high rule: binarySearch_loop.induct)
  case (1 r table low high)
  note inv = \<open>rangeTableInv table\<close>
  note below = \<open>\<forall>i. int i < low \<longrightarrow> i < length table \<longrightarrow> lastr (table ! i) < r\<close>
  note above = \<open>\<forall>i. high < int i \<longrightarrow> i < length table \<longrightarrow> r < first (table ! i)\<close>
  from inv have wf: "\<And>i. i < length table \<Longrightarrow> first (table ! i) \<le> lastr (table ! i)"
    unfolding rangeTableInv_def firstLeLast_def by (simp add: list_all_length)
  show ?case
  proof (cases "low \<le> high")
    case False
    have "\<not> (first (table ! i) \<le> r \<and> r \<le> lastr (table ! i))" if "i < length table" for i
    proof (cases "int i < low")
      case True
      with below that show ?thesis by auto
    next
      case F: False
      with False have "high < int i" by simp
      with above that show ?thesis by auto
    qed
    then have "\<not> (\<exists>e \<in> set table. first e \<le> r \<and> r \<le> lastr e)"
      by (auto simp: in_set_conv_nth)
    with False show ?thesis by (subst binarySearch_loop.simps) simp
  next
    case True
    define mid where "mid = quo (low + high) 2"
    from True \<open>0 \<le> low\<close> have m: "low \<le> mid" "mid \<le> high"
      using quo_mid [of low high] by (simp_all add: mid_def)
    with \<open>0 \<le> low\<close> \<open>high < int (length table)\<close>
    have rng: "\<not> (mid < 0 \<or> int (length table) \<le> mid)" by auto
    then have midlt: "nat mid < length table" by auto
    consider (l) "r < first (table ! nat mid)"
      | (h) "\<not> r < first (table ! nat mid)" "r > lastr (table ! nat mid)"
      | (hit) "first (table ! nat mid) \<le> r" "r \<le> lastr (table ! nat mid)" by linarith
    then show ?thesis
    proof cases
      case l
      have above': "\<forall>i. mid - 1 < int i \<longrightarrow> i < length table \<longrightarrow> r < first (table ! i)"
      proof (intro allI impI)
        fix i assume i: "mid - 1 < int i" "i < length table"
        show "r < first (table ! i)"
        proof (cases "i = nat mid")
          case True
          with l show ?thesis by simp
        next
          case False
          with i rng have "nat mid < i" by auto
          from rangeTableInv_gap [OF inv this i(2)] wf [OF midlt] l show ?thesis by linarith
        qed
      qed
      have "binarySearch_loop r table low (mid - 1) = Some (\<exists>e \<in> set table. first e \<le> r \<and> r \<le> lastr e)"
        using "1.IH"(1) [OF True mid_def rng refl l inv \<open>0 \<le> low\<close> _ below above'] m
          \<open>high < int (length table)\<close> by simp
      with True rng l show ?thesis
        by (subst binarySearch_loop.simps) (simp add: Let_def mid_def [symmetric])
    next
      case h
      have below': "\<forall>i. int i < mid + 1 \<longrightarrow> i < length table \<longrightarrow> lastr (table ! i) < r"
      proof (intro allI impI)
        fix i assume i: "int i < mid + 1" "i < length table"
        show "lastr (table ! i) < r"
        proof (cases "i = nat mid")
          case True
          with h show ?thesis by simp
        next
          case False
          with i rng have "i < nat mid" by auto
          from rangeTableInv_gap [OF inv this midlt] wf [OF i(2)] h show ?thesis by linarith
        qed
      qed
      have "binarySearch_loop r table (mid + 1) high = Some (\<exists>e \<in> set table. first e \<le> r \<and> r \<le> lastr e)"
        using "1.IH"(2) [OF True mid_def rng refl h inv _ \<open>high < int (length table)\<close> below' above] m
          \<open>0 \<le> low\<close> by simp
      with True rng h show ?thesis
        by (subst binarySearch_loop.simps) (simp add: Let_def mid_def [symmetric])
    next
      case hit
      from midlt have "table ! nat mid \<in> set table" by simp
      with hit have "\<exists>e \<in> set table. first e \<le> r \<and> r \<le> lastr e" by blast
      with True rng hit show ?thesis
        by (subst binarySearch_loop.simps) (simp add: Let_def mid_def [symmetric])
    qed
  qed
qed

text \<open>
  Claim C9. On a table that is sorted ascending by \<open>first\<close>, pairwise disjoint and has
  \<open>first \<le> last\<close> in each entry, \<open>binarySearch\<close> returns, for every code point,
  whether some interval of the table contains it. The search is a total function (its
  termination is proved with its definition) and the result is never the out-of-range
  panic.
\<close>

theorem binarySearch_correct:
  "rangeTableInv table \<Longrightarrow>
     binarySearch cp table = Some (\<exists>e \<in> set table. first e \<le> cp \<and> cp \<le> lastr e)"
  unfolding binarySearch_def
  by (rule binarySearch_loop_correct) auto

text \<open>The table \<open>ambiguousTable\<close> satisfies the invariants, and the search finds
  \<open>0x2550\<close> in its interval \<open>0x2500..0x257F\<close>.\<close>

theorem binarySearch_correct_witness:
  "rangeTableInv ambiguousTable \<and> binarySearch 0x2550 ambiguousTable = Some True"
proof -
  have inv: "rangeTableInv ambiguousTable"
    by (simp add: rangeTableInv_def sortedByFirst_def noOverlap_def firstLeLast_def
        ambiguousTable_def rangesOverlap_def)
  have hit: "\<exists>e \<in> set ambiguousTable. first e \<le> 0x2550 \<and> 0x2550 \<le> lastr e"
    by (simp add: ambiguousTable_def)
  from binarySearch_correct [OF inv, of "0x2550"] hit inv show ?thesis by simp
qed

lemma binarySearch_sound:
  "binarySearch r table = Some True \<Longrightarrow> inTable r table"
  unfolding binarySearch_def inTable_def list_ex_iff by (rule binarySearch_loop_sound)

lemma binarySearch_miss: "\<not> inTable r table \<Longrightarrow> binarySearch r table = Some False"
  using binarySearch_total [of r table] binarySearch_sound [of r table] by auto

lemma binarySearchWidth_total: "\<exists>w. binarySearchWidth x r = Some w \<and> w \<in> {0, 1, 2}"
proof -
  obtain w where w: "binarySearch r (wideTableGenerated x) = Some w"
    using binarySearch_total by blast
  obtain z where z: "binarySearch r (zeroWidthTableGenerated x) = Some z"
    using binarySearch_total by blast
  obtain a where a: "binarySearch r (ambiguousTableGenerated x) = Some a"
    using binarySearch_total by blast
  show ?thesis by (simp add: binarySearchWidth_def w z a)
qed

lemma binarySearchWidthInternal_total:
  "\<exists>w. binarySearchWidthInternal x r = Some w \<and> w \<in> {- 1, 0, 1, 2}"
proof -
  obtain w where w: "binarySearch r (wideTableGenerated x) = Some w"
    using binarySearch_total by blast
  obtain z where z: "binarySearch r (zeroWidthTableGenerated x) = Some z"
    using binarySearch_total by blast
  obtain a where a: "binarySearch r (ambiguousTableGenerated x) = Some a"
    using binarySearch_total by blast
  show ?thesis by (simp add: binarySearchWidthInternal_def w z a)
qed

lemma RuneWidth_total: "\<exists>w. RuneWidth x r = Some w \<and> w \<in> {0, 1, 2}"
  using binarySearchWidth_total [of x r] by (simp add: RuneWidth_def)

lemma runeWidthInternal_total: "\<exists>w. runeWidthInternal x r = Some w \<and> w \<in> {- 1, 0, 1, 2}"
  using binarySearchWidthInternal_total [of x r] by (simp add: runeWidthInternal_def)

lemma binarySearchWidth_miss:
  "\<not> inTable r (wideTableGenerated x) \<Longrightarrow> \<not> inTable r (zeroWidthTableGenerated x)
     \<Longrightarrow> binarySearchWidth x r = Some 1"
  using binarySearch_total [of r "ambiguousTableGenerated x"]
  by (auto simp: binarySearchWidth_def binarySearch_miss)

section \<open>The generated tables\<close>

lemma eachPair_sorted_wrt: "eachPair P t = sorted_wrt P t"
  by (induction t) (auto simp: list_all_iff)

lemma removeOverlappingRanges_filter:
  "removeOverlappingRanges ranges hotPaths
     = filter (\<lambda>e. \<not> list_ex (\<lambda>hp. rangesOverlap e hp) hotPaths) ranges"
  by (induction ranges) auto

lemma validRanges_removeOverlappingRanges:
  "validRanges ranges \<Longrightarrow> validRanges (removeOverlappingRanges ranges hotPaths)"
  by (simp add: removeOverlappingRanges_filter validRanges_def list_all_iff)

lemma succ32_valid: "r \<le> 0x10FFFF \<Longrightarrow> succ32 r = r + 1"
  by (simp add: succ32_def)

lemma optimizeRanges_loop_gapped:
  "sorted_wrt (\<lambda>a b. lastr a + 1 < first b) (pre @ [l])
   \<Longrightarrow> validRanges (pre @ [l]) \<Longrightarrow> validRanges ranges
   \<Longrightarrow> sorted (map first ranges) \<Longrightarrow> (\<forall>e \<in> set ranges. first l \<le> first e)
   \<Longrightarrow> sorted_wrt (\<lambda>a b. lastr a + 1 < first b) (optimizeRanges_loop (pre @ [l]) ranges)
       \<and> validRanges (optimizeRanges_loop (pre @ [l]) ranges)"
proof (induction ranges arbitrary: pre l)
  case Nil
  then show ?case by simp
next
  case (Cons current ranges)
  from Cons.prems have vl: "0 \<le> first l" "first l \<le> lastr l" "lastr l \<le> 0x10FFFF"
    and vpre: "validRanges pre"
    and vc: "0 \<le> first current" "first current \<le> lastr current" "lastr current \<le> 0x10FFFF"
    and vr: "validRanges ranges"
    and sr: "sorted (map first ranges)"
    and lc: "first l \<le> first current"
    and cr: "\<forall>e \<in> set ranges. first current \<le> first e"
    and gpre: "sorted_wrt (\<lambda>a b. lastr a + 1 < first b) pre"
    and gl: "\<forall>a \<in> set pre. lastr a + 1 < first l"
    by (auto simp: validRanges_def sorted_wrt_append)
  have s: "succ32 (lastr l) = lastr l + 1" using vl by (simp add: succ32_valid)
  show ?case
  proof (cases "first current \<le> lastr l + 1")
    case merge: True
    show ?thesis
    proof (cases "lastr current > lastr l")
      case True
      let ?l = "l\<lparr>lastr := lastr current\<rparr>"
      have "sorted_wrt (\<lambda>a b. lastr a + 1 < first b) (pre @ [?l])"
        using gpre gl by (simp add: sorted_wrt_append)
      moreover have "validRanges (pre @ [?l])"
        using vpre vl vc True by (simp add: validRanges_def)
      moreover have "\<forall>e \<in> set ranges. first ?l \<le> first e"
        using cr lc by auto
      ultimately have "sorted_wrt (\<lambda>a b. lastr a + 1 < first b) (optimizeRanges_loop (pre @ [?l]) ranges)
          \<and> validRanges (optimizeRanges_loop (pre @ [?l]) ranges)"
        using Cons.IH [of pre ?l] vr sr by blast
      with merge True s show ?thesis by (simp add: Let_def)
    next
      case False
      have "\<forall>e \<in> set ranges. first l \<le> first e" using cr lc by auto
      with Cons.IH [of pre l] Cons.prems(1,2) vr sr
      have "sorted_wrt (\<lambda>a b. lastr a + 1 < first b) (optimizeRanges_loop (pre @ [l]) ranges)
          \<and> validRanges (optimizeRanges_loop (pre @ [l]) ranges)"
        by blast
      with merge False s show ?thesis by (simp add: Let_def)
    qed
  next
    case False
    have "sorted_wrt (\<lambda>a b. lastr a + 1 < first b) ((pre @ [l]) @ [current])"
      using gpre gl vl False by (auto simp: sorted_wrt_append)
    moreover have "validRanges ((pre @ [l]) @ [current])"
      using Cons.prems(2) vc by (simp add: validRanges_def)
    ultimately have "sorted_wrt (\<lambda>a b. lastr a + 1 < first b)
          (optimizeRanges_loop ((pre @ [l]) @ [current]) ranges)
        \<and> validRanges (optimizeRanges_loop ((pre @ [l]) @ [current]) ranges)"
      using Cons.IH [of "pre @ [l]" current] vr sr cr by blast
    with False s show ?thesis by (simp add: Let_def)
  qed
qed

lemma inTable_append: "inTable cp (a @ b) \<longleftrightarrow> inTable cp a \<or> inTable cp b"
  by (auto simp: inTable_def list_ex_iff)

lemma inTable_Cons:
  "inTable cp (e # t) \<longleftrightarrow> (first e \<le> cp \<and> cp \<le> lastr e) \<or> inTable cp t"
  by (simp add: inTable_def)

lemma inTable_set: "set a = set b \<Longrightarrow> inTable cp a = inTable cp b"
  by (simp add: inTable_def list_ex_iff)

lemma optimizeRanges_loop_inTable:
  "validRanges (pre @ [l]) \<Longrightarrow> validRanges ranges
   \<Longrightarrow> sorted (map first ranges) \<Longrightarrow> (\<forall>e \<in> set ranges. first l \<le> first e)
   \<Longrightarrow> inTable cp (optimizeRanges_loop (pre @ [l]) ranges)
       \<longleftrightarrow> inTable cp (pre @ [l]) \<or> inTable cp ranges"
proof (induction ranges arbitrary: pre l)
  case Nil
  then show ?case by (simp add: inTable_def)
next
  case (Cons current ranges)
  from Cons.prems have vl: "0 \<le> first l" "first l \<le> lastr l" "lastr l \<le> 0x10FFFF"
    and vpre: "validRanges pre"
    and vc: "0 \<le> first current" "first current \<le> lastr current" "lastr current \<le> 0x10FFFF"
    and vr: "validRanges ranges"
    and sr: "sorted (map first ranges)"
    and lc: "first l \<le> first current"
    and cr: "\<forall>e \<in> set ranges. first current \<le> first e"
    by (auto simp: validRanges_def)
  have s: "succ32 (lastr l) = lastr l + 1" using vl by (simp add: succ32_valid)
  show ?case
  proof (cases "first current \<le> lastr l + 1")
    case merge: True
    show ?thesis
    proof (cases "lastr current > lastr l")
      case True
      let ?l = "l\<lparr>lastr := lastr current\<rparr>"
      have "validRanges (pre @ [?l])"
        using vpre vl vc True by (simp add: validRanges_def)
      moreover have "\<forall>e \<in> set ranges. first ?l \<le> first e"
        using cr lc by auto
      ultimately have "inTable cp (optimizeRanges_loop (pre @ [?l]) ranges)
          \<longleftrightarrow> inTable cp (pre @ [?l]) \<or> inTable cp ranges"
        using Cons.IH [of pre ?l] vr sr by blast
      moreover have "inTable cp (pre @ [?l]) \<longleftrightarrow> inTable cp (pre @ [l]) \<or> (first current \<le> cp \<and> cp \<le> lastr current)"
        using merge True lc by (auto simp: inTable_append inTable_Cons inTable_def)
      ultimately show ?thesis
        using merge True s by (auto simp: Let_def inTable_Cons)
    next
      case False
      have "\<forall>e \<in> set ranges. first l \<le> first e" using cr lc by auto
      with Cons.IH [of pre l] Cons.prems(1) vr sr
      have "inTable cp (optimizeRanges_loop (pre @ [l]) ranges)
          \<longleftrightarrow> inTable cp (pre @ [l]) \<or> inTable cp ranges"
        by blast
      moreover have "first current \<le> cp \<and> cp \<le> lastr current \<Longrightarrow> inTable cp (pre @ [l])"
        using False lc by (auto simp: inTable_append inTable_Cons)
      ultimately show ?thesis
        using merge False s by (auto simp: Let_def inTable_Cons)
    qed
  next
    case False
    have "validRanges ((pre @ [l]) @ [current])"
      using Cons.prems(1) vc by (simp add: validRanges_def)
    then have "inTable cp (optimizeRanges_loop ((pre @ [l]) @ [current]) ranges)
        \<longleftrightarrow> inTable cp ((pre @ [l]) @ [current]) \<or> inTable cp ranges"
      using Cons.IH [of "pre @ [l]" current] vr sr cr by blast
    with False s show ?thesis
      by (auto simp: Let_def inTable_append inTable_Cons inTable_def)
  qed
qed

lemma sort_key_first_split:
  assumes "ranges \<noteq> []"
  shows "sort_key first ranges = hd (sort_key first ranges) # tl (sort_key first ranges)"
    and "sorted (map first (tl (sort_key first ranges)))"
    and "\<forall>e \<in> set (tl (sort_key first ranges)). first (hd (sort_key first ranges)) \<le> first e"
proof -
  let ?s = "sort_key first ranges"
  from assms have ne: "?s \<noteq> []" by (metis length_0_conv length_sort)
  then show c: "?s = hd ?s # tl ?s" by simp
  have "sorted (map first ?s)" by (rule sorted_sort_key)
  with c have "sorted (map first (hd ?s # tl ?s))" by simp
  then show "sorted (map first (tl ?s))"
    and "\<forall>e \<in> set (tl ?s). first (hd ?s) \<le> first e"
    by auto
qed

lemma validRanges_sort_key: "validRanges ranges \<Longrightarrow> validRanges (sort_key first ranges)"
  by (simp add: validRanges_def list_all_iff)

lemma optimizeRanges_gapped:
  assumes "validRanges ranges"
  shows "sorted_wrt (\<lambda>a b. lastr a + 1 < first b) (optimizeRanges ranges)"
    and "validRanges (optimizeRanges ranges)"
proof -
  have "sorted_wrt (\<lambda>a b. lastr a + 1 < first b) (optimizeRanges ranges)
      \<and> validRanges (optimizeRanges ranges)"
  proof (cases "ranges = []")
    case True
    then show ?thesis by (simp add: optimizeRanges_def validRanges_def)
  next
    case False
    let ?s = "sort_key first ranges"
    note sp = sort_key_first_split [OF False]
    from assms have v: "validRanges (hd ?s # tl ?s)"
      using validRanges_sort_key sp(1) by metis
    then have v1: "validRanges ([] @ [hd ?s])" and v2: "validRanges (tl ?s)"
      by (simp_all add: validRanges_def)
    from optimizeRanges_loop_gapped [of "[]" "hd ?s" "tl ?s"] v1 v2 sp(2,3)
    show ?thesis using False by (simp add: optimizeRanges_def Let_def)
  qed
  then show "sorted_wrt (\<lambda>a b. lastr a + 1 < first b) (optimizeRanges ranges)"
    and "validRanges (optimizeRanges ranges)" by simp_all
qed

lemma optimizeRanges_inTable:
  assumes "validRanges ranges"
  shows "inTable cp (optimizeRanges ranges) \<longleftrightarrow> inTable cp ranges"
proof (cases "ranges = []")
  case True
  then show ?thesis by (simp add: optimizeRanges_def)
next
  case False
  let ?s = "sort_key first ranges"
  note sp = sort_key_first_split [OF False]
  from assms have v: "validRanges (hd ?s # tl ?s)"
    using validRanges_sort_key sp(1) by metis
  then have v1: "validRanges ([] @ [hd ?s])" and v2: "validRanges (tl ?s)"
    by (simp_all add: validRanges_def)
  from optimizeRanges_loop_inTable [of "[]" "hd ?s" "tl ?s" cp] v1 v2 sp(2,3)
  have "inTable cp (optimizeRanges ranges) \<longleftrightarrow> inTable cp (hd ?s # tl ?s)"
    using False by (simp add: optimizeRanges_def Let_def inTable_def)
  also have "\<dots> \<longleftrightarrow> inTable cp ?s" using sp(1) by simp
  also have "\<dots> \<longleftrightarrow> inTable cp ranges" by (rule inTable_set) simp
  finally show ?thesis .
qed

lemma gapped_invariants:
  assumes g: "sorted_wrt (\<lambda>a b. lastr a + 1 < first b) t" and v: "validRanges t"
  shows "rangeTableInv t" and "noAdjacent t"
proof -
  from v have w: "\<And>e. e \<in> set t \<Longrightarrow> first e \<le> lastr e"
    by (simp add: validRanges_def list_all_iff)
  have "sorted_wrt (\<lambda>a b. first a \<le> first b) t"
    by (rule sorted_wrt_mono_rel [OF _ g]) (use w in force)
  moreover have "sorted_wrt (\<lambda>a b. \<not> rangesOverlap a b) t"
    by (rule sorted_wrt_mono_rel [OF _ g]) (use w in \<open>force simp: rangesOverlap_def\<close>)
  moreover have "firstLeLast t"
    using w by (simp add: firstLeLast_def list_all_iff)
  ultimately show "rangeTableInv t"
    by (simp add: rangeTableInv_def sortedByFirst_def noOverlap_def eachPair_sorted_wrt)
  have "sorted_wrt (\<lambda>a b. \<not> rangesAdjacent a b) t"
  proof (rule sorted_wrt_mono_rel [OF _ g])
    fix a b assume "a \<in> set t" "b \<in> set t" "lastr a + 1 < first b"
    with w [of a] w [of b] show "\<not> rangesAdjacent a b"
      by (simp add: rangesAdjacent_def)
  qed
  then show "noAdjacent t"
    by (simp add: noAdjacent_def eachPair_sorted_wrt)
qed

lemma optimizeRanges_invariants:
  assumes "validRanges ranges"
  shows "rangeTableInv (optimizeRanges ranges)" and "noAdjacent (optimizeRanges ranges)"
  using gapped_invariants optimizeRanges_gapped [OF assms] by blast+

lemma validRanges_generateZeroWidthRanges: "validRanges generateZeroWidthRanges"
  by (simp add: validRanges_def generateZeroWidthRanges_def)

lemma validRanges_generated_inputs:
  assumes "validData d"
  shows "validRanges (filterHotPaths (mergeRanges (eawWide d) (emojiRanges d)))"
    and "validRanges (filterZeroWidthHotPaths generateZeroWidthRanges)"
    and "validRanges (filterAmbiguousHotPaths (eawAmbiguous d))"
proof -
  from assms have "validRanges (mergeRanges (eawWide d) (emojiRanges d))"
    by (simp add: validData_def mergeRanges_def validRanges_def)
  then show "validRanges (filterHotPaths (mergeRanges (eawWide d) (emojiRanges d)))"
    by (simp add: filterHotPaths_def validRanges_removeOverlappingRanges)
  show "validRanges (filterZeroWidthHotPaths generateZeroWidthRanges)"
    by (simp add: filterZeroWidthHotPaths_def validRanges_removeOverlappingRanges
        validRanges_generateZeroWidthRanges)
  from assms show "validRanges (filterAmbiguousHotPaths (eawAmbiguous d))"
    by (simp add: validData_def filterAmbiguousHotPaths_def validRanges_removeOverlappingRanges)
qed


lemma wideRanges_generated_sample:
  "wideRanges_generated sampleData =
     [rr 0x1100 0x115F, rr 0x3000 0x3003, rr 0x302A 0x302D, rr 0x3105 0x312F,
      rr 0xFF01 0xFF60, rr 0x1F1E6 0x1F1FF]"
  by (simp add: wideRanges_generated_def sampleData_def mergeRanges_def filterHotPaths_def
      filterHotPaths_hotPaths_def rangesOverlap_def optimizeRanges_def succ32_def Let_def)

lemma ambiguousRanges_generated_sample:
  "ambiguousRanges_generated sampleData =
     [rr 0x00A1 0x00A1, rr 0x00B0 0x00B1, rr 0x0300 0x036F, rr 0x2605 0x2606]"
  by (simp add: ambiguousRanges_generated_def sampleData_def filterAmbiguousHotPaths_def
      filterAmbiguousHotPaths_hotPaths_def rangesOverlap_def optimizeRanges_def succ32_def Let_def)

lemma zeroWidthRanges_generated_value:
  "zeroWidthRanges_generated =
    [rr 0x0080 0x009F, rr 0x00AD 0x00AD, rr 0x0300 0x036F, rr 0x0591 0x05BD,
     rr 0x05BF 0x05BF, rr 0x05C1 0x05C2, rr 0x05C4 0x05C5,
     rr 0x05C7 0x05C7, rr 0x0610 0x061A, rr 0x064B 0x065F,
     rr 0x0670 0x0670, rr 0x06D6 0x06DC, rr 0x06DF 0x06E4,
     rr 0x06E7 0x06E8, rr 0x06EA 0x06ED, rr 0x0901 0x0902,
     rr 0x093A 0x093A, rr 0x093C 0x093C, rr 0x0941 0x0948,
     rr 0x094D 0x094D, rr 0x0951 0x0957, rr 0x0962 0x0963,
     rr 0x20D0 0x20FF, rr 0xFE20 0xFE2F, rr 0xFEFF 0xFEFF]"
  by (simp add: zeroWidthRanges_generated_def generateZeroWidthRanges_def
      filterZeroWidthHotPaths_def filterZeroWidthHotPaths_hotPaths_def rangesOverlap_def
      optimizeRanges_def succ32_def Let_def)

lemma validData_sampleData: "validData sampleData"
  by (simp add: validData_def validRanges_def sampleData_def)


section \<open>The hot-path tiers and the generated tables\<close>

text \<open>A rune in a tier gets its width from the tier, whatever the tables hold; a rune
  in no tier gets it from the search.\<close>

lemma RuneWidth_asciiTier:
  "asciiTier r \<Longrightarrow> RuneWidth x r = Some (if r < 0x20 \<or> r = 0x7F then 0 else 1)"
  by (simp add: asciiTier_def RuneWidth_def)

lemma RuneWidth_hotWideTier:
  assumes "hotWideTier r"
  shows "RuneWidth x r = Some 2"
proof -
  from assms consider "0x4E00 \<le> r" "r \<le> 0x9FFF" | "0xAC00 \<le> r" "r \<le> 0xD7AF"
    | "0x3040 \<le> r" "r \<le> 0x312F" | "0xF900 \<le> r" "r \<le> 0xFAFF"
    by (auto simp: hotWideTier_def)
  then show ?thesis
    by cases (simp_all add: RuneWidth_def)
qed

lemma RuneWidth_hotEmojiTier:
  assumes "hotEmojiTier r"
  shows "RuneWidth x r = Some 2"
proof -
  from assms consider "0x1F600 \<le> r" "r \<le> 0x1F64F" | "0x1F300 \<le> r" "r \<le> 0x1F5FF"
    | "0x1F680 \<le> r" "r \<le> 0x1F6FF" | "0x1F900 \<le> r" "r \<le> 0x1F9FF"
    | "0x2600 \<le> r" "r \<le> 0x26FF" | "0x2700 \<le> r" "r \<le> 0x27BF"
    by (auto simp: hotEmojiTier_def)
  then show ?thesis
    by cases (simp_all add: RuneWidth_def)
qed

lemma RuneWidth_after_hot_tiers:
  assumes "\<not> asciiTier r" "\<not> hotWideTier r" "\<not> hotEmojiTier r"
  shows "RuneWidth x r = (if hotZeroWidthTier x r then Some 0 else binarySearchWidth x r)"
proof -
  from assms have
    "\<not> r < 0x80"
    "\<not> (r \<ge> 0x4E00 \<and> r \<le> 0x9FFF)" "\<not> (r \<ge> 0xAC00 \<and> r \<le> 0xD7AF)"
    "\<not> (r \<ge> 0x3040 \<and> r \<le> 0x312F)" "\<not> (r \<ge> 0xF900 \<and> r \<le> 0xFAFF)"
    "\<not> (r \<ge> 0x1F600 \<and> r \<le> 0x1F64F)" "\<not> (r \<ge> 0x1F300 \<and> r \<le> 0x1F5FF)"
    "\<not> (r \<ge> 0x1F680 \<and> r \<le> 0x1F6FF)" "\<not> (r \<ge> 0x1F900 \<and> r \<le> 0x1F9FF)"
    "\<not> (r \<ge> 0x2600 \<and> r \<le> 0x26FF)" "\<not> (r \<ge> 0x2700 \<and> r \<le> 0x27BF)"
    unfolding asciiTier_def hotWideTier_def hotEmojiTier_def by blast+
  then show ?thesis
    unfolding RuneWidth_def hotZeroWidthTier_def by (simp only: if_False) auto
qed

lemma binarySearch_inTable:
  "rangeTableInv table \<Longrightarrow> binarySearch r table = Some (inTable r table)"
  unfolding binarySearch_def inTable_def list_ex_iff
  by (rule binarySearch_loop_correct) auto

lemma sampleExternals_tables:
  "wideTableGenerated sampleExternals = wideRanges_generated sampleData"
  "zeroWidthTableGenerated sampleExternals = zeroWidthRanges_generated"
  "ambiguousTableGenerated sampleExternals = ambiguousRanges_generated sampleData"
  by (simp_all add: sampleExternals_def generatedExternals_def)

lemma sampleExternals_inv:
  "rangeTableInv (wideTableGenerated sampleExternals)"
  "rangeTableInv (zeroWidthTableGenerated sampleExternals)"
  "rangeTableInv (ambiguousTableGenerated sampleExternals)"
  unfolding sampleExternals_tables wideRanges_generated_def zeroWidthRanges_generated_def
    ambiguousRanges_generated_def
  using optimizeRanges_invariants(1) validRanges_generated_inputs [OF validData_sampleData]
  by blast+

text \<open>
  Claim C2, as stated, fails on the generated tables. The filter of the ambiguous
  ranges removes the ASCII range only, so the ambiguous range \<open>0x2605..0x2606\<close> of the
  data stays in the generated ambiguous table, inside the hot emoji range
  \<open>0x2600..0x26FF\<close>, and so do the combining marks \<open>0x0300..0x036F\<close>, which the hot
  zero-width tier claims. The filter of the wide ranges does not look at the
  zero-width tier, so the tone marks \<open>0x302A..0x302D\<close> stay in the generated wide
  table, and it stops the kana range at \<open>0x30FF\<close>, so the Bopomofo range
  \<open>0x3105..0x312F\<close> stays there too, inside the hot wide-script range \<open>0x3040..0x312F\<close>.
  The order of the tiers decides the result: \<open>RuneWidth\<close> gives \<open>0x2605\<close> the width 2
  of the emoji tier, where the search of the tables alone gives 1, and it gives
  \<open>0x302A\<close> the width 0 of the zero-width tier, where the search alone gives 2.
\<close>

theorem generated_tables_hot_disjoint_counterexample:
  "inTable 0x2605 (ambiguousTableGenerated sampleExternals) \<and> hotEmojiTier 0x2605
   \<and> RuneWidth sampleExternals 0x2605 = Some 2
   \<and> binarySearchWidth sampleExternals 0x2605 = Some 1
   \<and> inTable 0x302A (wideTableGenerated sampleExternals)
   \<and> hotZeroWidthTier sampleExternals 0x302A
   \<and> RuneWidth sampleExternals 0x302A = Some 0
   \<and> binarySearchWidth sampleExternals 0x302A = Some 2
   \<and> inTable 0x3105 (wideTableGenerated sampleExternals) \<and> hotWideTier 0x3105
   \<and> inTable 0x0300 (ambiguousTableGenerated sampleExternals)
   \<and> hotZeroWidthTier sampleExternals 0x0300"
proof -
  have a: "inTable 0x2605 (ambiguousTableGenerated sampleExternals)"
    "inTable 0x0300 (ambiguousTableGenerated sampleExternals)"
    unfolding sampleExternals_tables ambiguousRanges_generated_sample
    by (simp_all add: inTable_def)
  have w: "\<not> inTable 0x2605 (wideTableGenerated sampleExternals)"
    "inTable 0x302A (wideTableGenerated sampleExternals)"
    "inTable 0x3105 (wideTableGenerated sampleExternals)"
    unfolding sampleExternals_tables wideRanges_generated_sample
    by (simp_all add: inTable_def)
  have z: "\<not> inTable 0x2605 (zeroWidthTableGenerated sampleExternals)"
    unfolding sampleExternals_tables zeroWidthRanges_generated_value by (simp add: inTable_def)
  have b: "binarySearchWidth sampleExternals 0x2605 = Some 1"
    "binarySearchWidth sampleExternals 0x302A = Some 2"
    by (simp_all add: binarySearchWidth_def binarySearch_inTable sampleExternals_inv a w z)
  have m: "unicodeIn_Mn_Me_Mc sampleExternals 0x302A" "unicodeIn_Mn_Me_Mc sampleExternals 0x0300"
    by (simp_all add: sampleExternals_def generatedExternals_def)
  have r: "RuneWidth sampleExternals 0x2605 = Some 2" by (simp add: RuneWidth_def)
  have r': "RuneWidth sampleExternals 0x302A = Some 0" by (simp add: RuneWidth_def m)
  have t: "hotEmojiTier 0x2605" "hotWideTier 0x3105"
    "hotZeroWidthTier sampleExternals 0x302A" "hotZeroWidthTier sampleExternals 0x0300"
    by (simp_all add: hotEmojiTier_def hotWideTier_def hotZeroWidthTier_def m)
  from a w b r r' t show ?thesis by blast
qed

lemma removeOverlappingRanges_inTable:
  assumes "inTable cp (removeOverlappingRanges ranges hotPaths)"
  shows "\<not> inTable cp hotPaths"
proof
  assume h: "inTable cp hotPaths"
  from assms obtain e where e: "e \<in> set ranges" "\<not> list_ex (\<lambda>hp. rangesOverlap e hp) hotPaths"
    "first e \<le> cp" "cp \<le> lastr e"
    by (auto simp: removeOverlappingRanges_filter inTable_def list_ex_iff)
  from h obtain hp where hp: "hp \<in> set hotPaths" "first hp \<le> cp" "cp \<le> lastr hp"
    by (auto simp: inTable_def list_ex_iff)
  from e(3,4) hp(2,3) have "rangesOverlap e hp" by (simp add: rangesOverlap_def)
  with e(2) hp(1) show False by (auto simp: list_ex_iff)
qed

lemma validRanges_inTable_nonneg: "validRanges t \<Longrightarrow> inTable cp t \<Longrightarrow> 0 \<le> cp"
  by (force simp: validRanges_def inTable_def list_all_iff list_ex_iff)

lemma wideRanges_generated_hot:
  assumes "validData d" "inTable cp (wideRanges_generated d)"
  shows "0 \<le> cp" and "\<not> inTable cp filterHotPaths_hotPaths"
proof -
  note v = validRanges_generated_inputs(1) [OF assms(1)]
  from assms(2) have i: "inTable cp (filterHotPaths (mergeRanges (eawWide d) (emojiRanges d)))"
    by (simp add: wideRanges_generated_def optimizeRanges_inTable [OF v])
  from validRanges_inTable_nonneg [OF v i] show "0 \<le> cp" .
  from i show "\<not> inTable cp filterHotPaths_hotPaths"
    unfolding filterHotPaths_def by (rule removeOverlappingRanges_inTable)
qed

lemma ambiguousRanges_generated_hot:
  assumes "validData d" "inTable cp (ambiguousRanges_generated d)"
  shows "0 \<le> cp" and "\<not> inTable cp filterAmbiguousHotPaths_hotPaths"
proof -
  note v = validRanges_generated_inputs(3) [OF assms(1)]
  from assms(2) have i: "inTable cp (filterAmbiguousHotPaths (eawAmbiguous d))"
    by (simp add: ambiguousRanges_generated_def optimizeRanges_inTable [OF v])
  from validRanges_inTable_nonneg [OF v i] show "0 \<le> cp" .
  from i show "\<not> inTable cp filterAmbiguousHotPaths_hotPaths"
    unfolding filterAmbiguousHotPaths_def by (rule removeOverlappingRanges_inTable)
qed

lemma filterHotPaths_hotPaths_tiers:
  assumes "0 \<le> cp" "\<not> inTable cp filterHotPaths_hotPaths"
  shows "\<not> asciiTier cp" and "\<not> hotEmojiTier cp"
    and "hotWideTier cp \<longrightarrow> 0x3100 \<le> cp \<and> cp \<le> 0x312F"
proof -
  from assms(2) have n:
    "\<not> (0x0000 \<le> cp \<and> cp \<le> 0x007F)"
    "\<not> (0x4E00 \<le> cp \<and> cp \<le> 0x9FFF)" "\<not> (0xAC00 \<le> cp \<and> cp \<le> 0xD7AF)"
    "\<not> (0x3040 \<le> cp \<and> cp \<le> 0x30FF)" "\<not> (0xF900 \<le> cp \<and> cp \<le> 0xFAFF)"
    "\<not> (0x1F600 \<le> cp \<and> cp \<le> 0x1F64F)" "\<not> (0x1F300 \<le> cp \<and> cp \<le> 0x1F5FF)"
    "\<not> (0x1F680 \<le> cp \<and> cp \<le> 0x1F6FF)" "\<not> (0x1F900 \<le> cp \<and> cp \<le> 0x1F9FF)"
    "\<not> (0x2600 \<le> cp \<and> cp \<le> 0x26FF)" "\<not> (0x2700 \<le> cp \<and> cp \<le> 0x27BF)"
    by (simp_all add: inTable_def filterHotPaths_hotPaths_def)
  from n(1) assms(1) show "\<not> asciiTier cp" by (simp add: asciiTier_def)
  from n(6-11) show "\<not> hotEmojiTier cp" unfolding hotEmojiTier_def by blast
  from n(2-5) show "hotWideTier cp \<longrightarrow> 0x3100 \<le> cp \<and> cp \<le> 0x312F"
    unfolding hotWideTier_def by linarith
qed

lemma zeroWidthRanges_generated_bounds:
  assumes "inTable cp zeroWidthRanges_generated"
  shows "(0x0080 \<le> cp \<and> cp \<le> 0x0963) \<or> (0x20D0 \<le> cp \<and> cp \<le> 0x20FF)
     \<or> (0xFE20 \<le> cp \<and> cp \<le> 0xFEFF)"
proof -
  have "list_all (\<lambda>e. (0x0080 \<le> first e \<and> lastr e \<le> 0x0963)
      \<or> (0x20D0 \<le> first e \<and> lastr e \<le> 0x20FF)
      \<or> (0xFE20 \<le> first e \<and> lastr e \<le> 0xFEFF)) zeroWidthRanges_generated"
    unfolding zeroWidthRanges_generated_value by simp
  with assms show ?thesis
    by (fastforce simp: inTable_def list_all_iff list_ex_iff)
qed

lemma zeroWidthRanges_generated_hot:
  assumes "inTable cp zeroWidthRanges_generated"
  shows "\<not> asciiTier cp" and "\<not> hotWideTier cp" and "\<not> hotEmojiTier cp"
    and "hotZeroWidthTier x cp \<longrightarrow> unicodeIn_Mn_Me_Mc x cp"
proof -
  from zeroWidthRanges_generated_bounds [OF assms]
  consider "0x0080 \<le> cp" "cp \<le> 0x0963" | "0x20D0 \<le> cp" "cp \<le> 0x20FF"
    | "0xFE20 \<le> cp" "cp \<le> 0xFEFF" by blast
  then have "\<not> asciiTier cp \<and> \<not> hotWideTier cp \<and> \<not> hotEmojiTier cp
      \<and> (hotZeroWidthTier x cp \<longrightarrow> unicodeIn_Mn_Me_Mc x cp)"
    by cases (simp_all add: asciiTier_def hotWideTier_def hotEmojiTier_def hotZeroWidthTier_def)
  then show "\<not> asciiTier cp" and "\<not> hotWideTier cp" and "\<not> hotEmojiTier cp"
    and "hotZeroWidthTier x cp \<longrightarrow> unicodeIn_Mn_Me_Mc x cp" by simp_all
qed

text \<open>
  Claim C2, amended. Of the tables generated from ranges of code points: every
  interval of the wide table is disjoint from the ASCII tier, from the hot emoji ranges
  and from the hot wide-script ranges outside \<open>0x3100..0x312F\<close>; every interval of the
  zero-width table is disjoint from the ASCII tier, the hot wide-script ranges, the hot
  emoji ranges and the code points and blocks that the hot zero-width tier compares, so
  that it meets that tier only in code points that \<open>unicode.In\<close> reports as marks; every
  interval of the ambiguous table is disjoint from the ASCII tier.
\<close>

theorem generated_tables_hot_disjoint:
  "validData d \<Longrightarrow>
     (\<forall>cp. inTable cp (wideRanges_generated d) \<longrightarrow>
        \<not> asciiTier cp \<and> \<not> hotEmojiTier cp
        \<and> (hotWideTier cp \<longrightarrow> 0x3100 \<le> cp \<and> cp \<le> 0x312F))
   \<and> (\<forall>cp. inTable cp zeroWidthRanges_generated \<longrightarrow>
        \<not> asciiTier cp \<and> \<not> hotWideTier cp \<and> \<not> hotEmojiTier cp
        \<and> (hotZeroWidthTier x cp \<longrightarrow> unicodeIn_Mn_Me_Mc x cp))
   \<and> (\<forall>cp. inTable cp (ambiguousRanges_generated d) \<longrightarrow> \<not> asciiTier cp)"
proof (intro conjI allI impI)
  fix cp assume d: "validData d" and i: "inTable cp (wideRanges_generated d)"
  note h = wideRanges_generated_hot [OF d i]
  from filterHotPaths_hotPaths_tiers [OF h]
  show "\<not> asciiTier cp" and "\<not> hotEmojiTier cp"
    and "hotWideTier cp \<Longrightarrow> 0x3100 \<le> cp" and "hotWideTier cp \<Longrightarrow> cp \<le> 0x312F"
    by simp_all
next
  fix cp assume i: "inTable cp zeroWidthRanges_generated"
  from zeroWidthRanges_generated_hot [OF i]
  show "\<not> asciiTier cp" and "\<not> hotWideTier cp" and "\<not> hotEmojiTier cp"
    and "hotZeroWidthTier x cp \<Longrightarrow> unicodeIn_Mn_Me_Mc x cp" by simp_all
next
  fix cp assume d: "validData d" and i: "inTable cp (ambiguousRanges_generated d)"
  from ambiguousRanges_generated_hot [OF d i]
  show "\<not> asciiTier cp" by (simp add: inTable_def filterAmbiguousHotPaths_hotPaths_def asciiTier_def)
qed

text \<open>In the tables generated from the sample data: \<open>0x3105\<close> of the wide table,
  \<open>0x00AD\<close> of the zero-width table and \<open>0x00B1\<close> of the ambiguous table.\<close>

theorem generated_tables_hot_disjoint_witness:
  "validData sampleData
   \<and> inTable 0x3105 (wideRanges_generated sampleData) \<and> \<not> asciiTier 0x3105
   \<and> \<not> hotEmojiTier 0x3105 \<and> hotWideTier 0x3105
   \<and> inTable 0x00AD zeroWidthRanges_generated \<and> \<not> hotWideTier 0x00AD
   \<and> inTable 0x00B1 (ambiguousRanges_generated sampleData) \<and> \<not> asciiTier 0x00B1"
proof -
  have w: "inTable 0x3105 (wideRanges_generated sampleData)"
    unfolding wideRanges_generated_sample by (simp add: inTable_def)
  have z: "inTable 0x00AD zeroWidthRanges_generated"
    unfolding zeroWidthRanges_generated_value by (simp add: inTable_def)
  have a: "inTable 0x00B1 (ambiguousRanges_generated sampleData)"
    unfolding ambiguousRanges_generated_sample by (simp add: inTable_def)
  have h: "hotWideTier 0x3105" by (simp add: hotWideTier_def)
  from generated_tables_hot_disjoint [OF validData_sampleData] w z a h
    validData_sampleData
  show ?thesis by blast
qed

section \<open>Runes that are not code points\<close>

text \<open>
  Claim C3, as stated, fails for the negative 32-bit inputs: they are outside
  \<open>0..0x10FFFF\<close>, and the first comparison of \<open>RuneWidth\<close>, \<open>r < 0x80\<close> followed by
  \<open>r < 0x20\<close>, gives them the width 0.
\<close>

theorem RuneWidth_negative_counterexample:
  "- (2 ^ 31) \<le> (- 1 :: int) \<and> (- 1 :: int) < 0 \<and> RuneWidth legacyExternals (- 1) = Some 0"
  by (simp add: RuneWidth_def)

text \<open>
  Claim C3, amended. \<open>RuneWidth\<close> returns 0, 1 or 2 on every input and never fails.
  On every negative input it returns 0. On every input above \<open>0x10FFFF\<close> or inside the
  surrogate range it returns 1, provided that \<open>unicode.In\<close> does not report the input as
  a mark and that no interval of the generated wide and zero-width tables contains it.
\<close>

theorem RuneWidth_invalid_rune:
  "(\<exists>w. RuneWidth x r = Some w \<and> w \<in> {0, 1, 2}) \<and>
   (r < 0 \<longrightarrow> RuneWidth x r = Some 0) \<and>
   ((0x10FFFF < r \<or> isSurrogate r) \<and> \<not> unicodeIn_Mn_Me_Mc x r
      \<and> \<not> inTable r (wideTableGenerated x) \<and> \<not> inTable r (zeroWidthTableGenerated x)
    \<longrightarrow> RuneWidth x r = Some 1)"
proof (intro conjI impI)
  show "\<exists>w. RuneWidth x r = Some w \<and> w \<in> {0, 1, 2}" by (rule RuneWidth_total)
  show "RuneWidth x r = Some 0" if "r < 0" using that by (simp add: RuneWidth_def)
  show "RuneWidth x r = Some 1"
    if h: "(0x10FFFF < r \<or> isSurrogate r) \<and> \<not> unicodeIn_Mn_Me_Mc x r
      \<and> \<not> inTable r (wideTableGenerated x) \<and> \<not> inTable r (zeroWidthTableGenerated x)"
  proof -
    from h have b: "binarySearchWidth x r = Some 1" by (simp add: binarySearchWidth_miss)
    from h have u: "\<not> unicodeIn_Mn_Me_Mc x r" by simp
    from h consider (above) "0x10FFFF < r" | (surrogate) "0xD800 \<le> r" "r \<le> 0xDFFF"
      by (auto simp: isSurrogate_def)
    then show ?thesis
    proof cases
      case above
      with b u show ?thesis by (simp add: RuneWidth_def)
    next
      case surrogate
      with b u show ?thesis by (simp add: RuneWidth_def)
    qed
  qed
qed

text \<open>With the tables of \<open>tables.go\<close>: \<open>-1\<close>, the surrogate \<open>0xD800\<close> and
  \<open>0x110000\<close>.\<close>

theorem RuneWidth_invalid_rune_witness:
  "RuneWidth legacyExternals (- 1) = Some 0 \<and> RuneWidth legacyExternals 0xD800 = Some 1
     \<and> RuneWidth legacyExternals 0x110000 = Some 1"
proof -
  have t: "\<not> inTable 0xD800 (wideTableGenerated legacyExternals)"
    "\<not> inTable 0xD800 (zeroWidthTableGenerated legacyExternals)"
    "\<not> inTable 0x110000 (wideTableGenerated legacyExternals)"
    "\<not> inTable 0x110000 (zeroWidthTableGenerated legacyExternals)"
    by (simp_all add: legacyExternals_def inTable_def wideTable_def zeroWidthTable_def)
  have u: "\<not> unicodeIn_Mn_Me_Mc legacyExternals 0xD800" "\<not> unicodeIn_Mn_Me_Mc legacyExternals 0x110000"
    by (simp_all add: legacyExternals_def)
  show ?thesis
    using RuneWidth_invalid_rune [of legacyExternals "- 1"]
      RuneWidth_invalid_rune [of legacyExternals "0xD800"]
      RuneWidth_invalid_rune [of legacyExternals "0x110000"] t u
    by (simp add: isSurrogate_def)
qed

section \<open>ASCII strings\<close>

lemma isASCIIOnly_iff: "isASCIIOnly s \<longleftrightarrow> (\<forall>b \<in> set s. b < 0x80)"
  by (induction s) (auto simp: not_le)

lemma runes_of_ascii: "isASCIIOnly s \<Longrightarrow> runes_of s = map uint s"
  by (induction s) (auto split: if_splits)

lemma asciiWidth_loop_count: "asciiWidth_loop s width = width + countPrintable s"
  by (induction s arbitrary: width) (auto simp: countPrintable_def)

lemma RuneWidth_ascii_byte:
  "b < 0x80 \<Longrightarrow> RuneWidth x (uint b) = Some (if b < 0x20 \<or> b = 0x7F then 0 else 1)"
  for b :: byte
  by (auto simp: RuneWidth_def word_less_def word_uint_eq_iff)

lemma sumRuneWidth_ascii:
  "isASCIIOnly s \<Longrightarrow> sumRuneWidth x (map uint s) = Some (countPrintable s)"
proof (induction s)
  case Nil
  then show ?case by (simp add: countPrintable_def)
next
  case (Cons b s)
  then have b: "b < 0x80" and s: "isASCIIOnly s" by (auto split: if_splits simp: not_le)
  from Cons.IH [OF s] RuneWidth_ascii_byte [OF b, of x] show ?case
    by (auto simp: countPrintable_def)
qed

text \<open>
  Claim C8. For every string whose bytes are all below \<open>0x80\<close>, \<open>StringWidth\<close> returns
  the sum of \<open>RuneWidth\<close> over the code points of the string.
\<close>

theorem StringWidth_ascii_sum:
  "isASCIIOnly s \<Longrightarrow> StringWidth x s = sumRuneWidth x (runes_of s)"
  by (simp add: StringWidth_def asciiWidth_loop_count runes_of_ascii sumRuneWidth_ascii)

text \<open>The string \<open>"Hi\t"\<close>: two printable characters and a tab.\<close>

theorem StringWidth_ascii_sum_witness:
  "isASCIIOnly [0x48, 0x69, 0x09] \<and> StringWidth legacyExternals [0x48, 0x69, 0x09] = Some 2
     \<and> sumRuneWidth legacyExternals (runes_of [0x48, 0x69, 0x09]) = Some 2"
proof -
  have a: "isASCIIOnly [0x48, 0x69, 0x09]" by simp
  have "StringWidth legacyExternals [0x48, 0x69, 0x09] = Some 2"
    by (simp add: StringWidth_def)
  with a StringWidth_ascii_sum [OF a, of legacyExternals] show ?thesis by simp
qed

section \<open>Decoding of the example strings\<close>

text \<open>The UTF-8 bytes of the strings used below: U+2600 followed by a variation
  selector, the flag of the regional indicators U+1F1FA U+1F1F8, U+4E16 alone and
  followed by U+FE0E, and U+00B1.\<close>

lemma runes_sun_text: "runes_of [0xE2, 0x98, 0x80, 0xEF, 0xB8, 0x8E] = [0x2600, 0xFE0E]"
  by (simp add: rune3_def acceptLo_def acceptHi_def isCont_def)

lemma runes_sun_emoji: "runes_of [0xE2, 0x98, 0x80, 0xEF, 0xB8, 0x8F] = [0x2600, 0xFE0F]"
  by (simp add: rune3_def acceptLo_def acceptHi_def isCont_def)

lemma runes_flag_US: "runes_of [0xF0, 0x9F, 0x87, 0xBA, 0xF0, 0x9F, 0x87, 0xB8] = [0x1F1FA, 0x1F1F8]"
  by (simp add: rune4_def acceptLo_def acceptHi_def isCont_def)

lemma runes_shi: "runes_of [0xE4, 0xB8, 0x96] = [0x4E16]"
  by (simp add: rune3_def acceptLo_def acceptHi_def isCont_def)

lemma runes_shi_text: "runes_of [0xE4, 0xB8, 0x96, 0xEF, 0xB8, 0x8E] = [0x4E16, 0xFE0E]"
  by (simp add: rune3_def acceptLo_def acceptHi_def isCont_def)

lemma runes_text_selector: "runes_of [0xEF, 0xB8, 0x8E] = [0xFE0E]"
  by (simp add: rune3_def acceptLo_def acceptHi_def isCont_def)

lemma runes_plus_minus: "runes_of [0xC2, 0xB1] = [0xB1]"
  by (simp add: rune2_def isCont_def)

lemma isASCIIOnly_runes_small:
  assumes "isASCIIOnly s" "r \<in> set (runes_of s)"
  shows "r < 0x80"
proof -
  from assms obtain b where b: "b \<in> set s" "r = uint b"
    by (auto simp: runes_of_ascii)
  with assms(1) have "b < 0x80" by (simp add: isASCIIOnly_iff)
  with b show ?thesis by (simp add: word_less_def)
qed

section \<open>\<open>StringWidthWithOptions\<close> against \<open>StringWidth\<close>\<close>

text \<open>On an ASCII string \<open>StringWidthWithOptions\<close> returns the number of bytes.\<close>

lemma StringWidthWithOptions_ascii:
  "isASCIIOnly s \<Longrightarrow> StringWidthWithOptions x s opts = Some (int (length s))"
  by (simp add: StringWidthWithOptions_def)

text \<open>
  Claim C4 at the string that holds one tab (byte \<open>0x09\<close>), which is ASCII and has no
  printable character: \<open>StringWidthWithOptions\<close> returns 1 for every list of options,
  where the count without control characters is 0, the value \<open>StringWidth\<close> returns.
\<close>

theorem StringWidthWithOptions_ascii_control:
  "isASCIIOnly [0x09] \<and> countPrintable [0x09] = 0
   \<and> StringWidthWithOptions x [0x09] opts = Some 1
   \<and> StringWidth x [0x09] = Some 0"
  by (simp add: StringWidthWithOptions_def StringWidth_def countPrintable_def)

text \<open>
  Claim C5 at the two-rune string U+2600 U+FE0E: \<open>StringWidthWithOptions\<close> has no
  variation-selector rule and returns 2 for every list of options, the width 2 of
  U+2600 plus the width 0 of the selector, where \<open>StringWidth\<close> returns 1.
\<close>

theorem StringWidthWithOptions_variation_selector:
  "runes_of [0xE2, 0x98, 0x80, 0xEF, 0xB8, 0x8E] = [0x2600, 0xFE0E]
   \<and> StringWidthWithOptions x [0xE2, 0x98, 0x80, 0xEF, 0xB8, 0x8E] opts = Some 2
   \<and> StringWidth x [0xE2, 0x98, 0x80, 0xEF, 0xB8, 0x8E] = Some 1"
proof -
  have "StringWidthWithOptions x [0xE2, 0x98, 0x80, 0xEF, 0xB8, 0x8E] opts = Some 2"
    unfolding StringWidthWithOptions_def Let_def runes_sun_text
    by (simp add: runeWidthInternal_def)
  moreover have "StringWidth x [0xE2, 0x98, 0x80, 0xEF, 0xB8, 0x8E] = Some 1"
    unfolding StringWidth_def runes_sun_text
    by (simp add: StringWidth_loop.simps isRegionalIndicator_def)
  ultimately show ?thesis using runes_sun_text by simp
qed

text \<open>With the emoji selector U+FE0F both functions return 2: \<open>StringWidth\<close> by its
  rule, \<open>StringWidthWithOptions\<close> as the sum of 2 and 0.\<close>

lemma StringWidth_sun_emoji: "StringWidth x [0xE2, 0x98, 0x80, 0xEF, 0xB8, 0x8F] = Some 2"
  unfolding StringWidth_def runes_sun_emoji
  by (simp add: StringWidth_loop.simps isRegionalIndicator_def)

lemma StringWidthWithOptions_sun_emoji:
  "StringWidthWithOptions x [0xE2, 0x98, 0x80, 0xEF, 0xB8, 0x8F] opts = Some 2"
  unfolding StringWidthWithOptions_def Let_def runes_sun_emoji
  by (simp add: runeWidthInternal_def)

text \<open>\<open>StringWidth\<close> gives every pair of regional indicators the width 2.\<close>

lemma StringWidth_regional_pair:
  assumes "runes_of s = [a, b]" "isRegionalIndicator a" "isRegionalIndicator b"
  shows "StringWidth x s = Some 2"
proof -
  have "\<not> isASCIIOnly s"
  proof
    assume "isASCIIOnly s"
    from isASCIIOnly_runes_small [OF this, of a] assms show False
      by (simp add: isRegionalIndicator_def)
  qed
  with assms show ?thesis
    by (simp add: StringWidth_def StringWidth_loop.simps)
qed

lemma StringWidth_flag_US: "StringWidth x [0xF0, 0x9F, 0x87, 0xBA, 0xF0, 0x9F, 0x87, 0xB8] = Some 2"
  by (rule StringWidth_regional_pair [OF runes_flag_US]) (simp_all add: isRegionalIndicator_def)

lemma binarySearch_flag:
  "binarySearch 0x1F1FA [rr 0x1F1E6 0x1F1FF] = Some True"
  "binarySearch 0x1F1F8 [rr 0x1F1E6 0x1F1FF] = Some True"
  by (simp_all add: binarySearch_def binarySearch_loop.simps quo_def)

text \<open>
  Claim C6 at the flag U+1F1FA U+1F1F8, with a wide table that lists the regional
  indicators: \<open>StringWidthWithOptions\<close> has no pairing rule and returns 4 for every
  list of options, the sum of the two widths, where \<open>StringWidth\<close> returns 2.
\<close>

theorem StringWidthWithOptions_flag:
  "runes_of [0xF0, 0x9F, 0x87, 0xBA, 0xF0, 0x9F, 0x87, 0xB8] = [0x1F1FA, 0x1F1F8]
   \<and> isRegionalIndicator 0x1F1FA \<and> isRegionalIndicator 0x1F1F8
   \<and> StringWidthWithOptions flagExternals [0xF0, 0x9F, 0x87, 0xBA, 0xF0, 0x9F, 0x87, 0xB8] opts = Some 4
   \<and> StringWidth flagExternals [0xF0, 0x9F, 0x87, 0xBA, 0xF0, 0x9F, 0x87, 0xB8] = Some 2"
proof -
  have "StringWidthWithOptions flagExternals [0xF0, 0x9F, 0x87, 0xBA, 0xF0, 0x9F, 0x87, 0xB8] opts = Some 4"
    unfolding StringWidthWithOptions_def Let_def runes_flag_US
    by (simp add: runeWidthInternal_def binarySearchWidthInternal_def flagExternals_def
        binarySearch_flag)
  with runes_flag_US StringWidth_flag_US [of flagExternals] show ?thesis
    by (simp add: isRegionalIndicator_def)
qed

section \<open>Toggling the ambiguous width\<close>

lemma runeWidthInternal_hot:
  assumes "internalHotPath r"
  shows "runeWidthInternal x r \<noteq> Some (- 1)"
proof
  assume "runeWidthInternal x r = Some (- 1)"
  then have "\<not> internalHotPath r"
    unfolding internalHotPath_def hotEmojiTier_def
    by (simp add: runeWidthInternal_def split: if_splits)
  with assms show False by simp
qed

lemma runeWidthInternal_not_hot:
  assumes "\<not> internalHotPath r"
  shows "runeWidthInternal x r = binarySearchWidthInternal x r"
proof -
  from assms have "\<not> r < 0x80 \<and>
    \<not> (r \<ge> 0x4E00 \<and> r \<le> 0x9FFF) \<and> \<not> (r \<ge> 0xAC00 \<and> r \<le> 0xD7AF) \<and>
    \<not> (r \<ge> 0x3040 \<and> r \<le> 0x30FF) \<and> \<not> (r \<ge> 0xF900 \<and> r \<le> 0xFAFF) \<and>
    \<not> (r \<ge> 0x1F600 \<and> r \<le> 0x1F64F) \<and> \<not> (r \<ge> 0x1F300 \<and> r \<le> 0x1F5FF) \<and>
    \<not> (r \<ge> 0x1F680 \<and> r \<le> 0x1F6FF) \<and> \<not> (r \<ge> 0x1F900 \<and> r \<le> 0x1F9FF) \<and>
    \<not> (r \<ge> 0x2600 \<and> r \<le> 0x26FF) \<and> \<not> (r \<ge> 0x2700 \<and> r \<le> 0x27BF) \<and>
    \<not> (r = 0x200D \<or> r = 0x200C) \<and>
    \<not> (r \<ge> 0xFE00 \<and> r \<le> 0xFE0F) \<and> \<not> (r \<ge> 0xE0100 \<and> r \<le> 0xE01EF) \<and>
    \<not> ((r \<ge> 0x0300 \<and> r \<le> 0x036F) \<or> (r \<ge> 0x1AB0 \<and> r \<le> 0x1AFF) \<or>
        (r \<ge> 0x1DC0 \<and> r \<le> 0x1DFF) \<or> (r \<ge> 0x20D0 \<and> r \<le> 0x20FF) \<or>
        (r \<ge> 0xFE20 \<and> r \<le> 0xFE2F))"
    unfolding internalHotPath_def hotEmojiTier_def
    by (simp only: de_Morgan_disj simp_thms)
  then show ?thesis
    unfolding runeWidthInternal_def by (elim conjE) (simp only: if_False)
qed

lemma reportsAmbiguous_iff:
  assumes "rangeTableInv (wideTableGenerated x)" "rangeTableInv (zeroWidthTableGenerated x)"
    "rangeTableInv (ambiguousTableGenerated x)"
  shows "reportsAmbiguous x r \<longleftrightarrow> ambiguousClass x r \<and> \<not> claimedEarlier x r"
proof (cases "internalHotPath r")
  case True
  with runeWidthInternal_hot [OF True, of x] show ?thesis
    by (simp add: reportsAmbiguous_def claimedEarlier_def)
next
  case False
  with runeWidthInternal_not_hot [OF False, of x] assms show ?thesis
    by (simp add: reportsAmbiguous_def claimedEarlier_def ambiguousClass_def
        binarySearchWidthInternal_def binarySearch_inTable)
qed

lemma buildOptions_EAWide:
  "EastAsianAmbiguous (buildOptions [WithEastAsianAmbiguous EAWide]) = 2"
  by (simp add: buildOptions_def WithEastAsianAmbiguous_def EAWide_def)

lemma buildOptions_EANarrow:
  "EastAsianAmbiguous (buildOptions [WithEastAsianAmbiguous EANarrow]) = 1"
  by (simp add: buildOptions_def WithEastAsianAmbiguous_def EANarrow_def)

lemma StringWidthWithOptions_loop_toggle:
  assumes "EastAsianAmbiguous wide = 2" "EastAsianAmbiguous narrow = 1"
  shows "\<exists>n. StringWidthWithOptions_loop x narrow runes a = Some (a + n)
           \<and> StringWidthWithOptions_loop x wide runes b
               = Some (b + n + int (length (filter (reportsAmbiguous x) runes)))"
proof (induction runes arbitrary: a b)
  case Nil
  show ?case by simp
next
  case (Cons r runes)
  obtain w where w: "runeWidthInternal x r = Some w"
    using runeWidthInternal_total [of x r] by blast
  show ?case
  proof (cases "w = - 1")
    case True
    from Cons.IH [of "a + 1" "b + 2"] obtain n where
      n: "StringWidthWithOptions_loop x narrow runes (a + 1) = Some (a + 1 + n)"
         "StringWidthWithOptions_loop x wide runes (b + 2)
            = Some (b + 2 + n + int (length (filter (reportsAmbiguous x) runes)))"
      by blast
    from True w have amb: "reportsAmbiguous x r" by (simp add: reportsAmbiguous_def)
    show ?thesis
      using n w True amb assms by (intro exI [of _ "1 + n"]) simp
  next
    case False
    from Cons.IH [of "a + w" "b + w"] obtain n where
      n: "StringWidthWithOptions_loop x narrow runes (a + w) = Some (a + w + n)"
         "StringWidthWithOptions_loop x wide runes (b + w)
            = Some (b + w + n + int (length (filter (reportsAmbiguous x) runes)))"
      by blast
    from False w have amb: "\<not> reportsAmbiguous x r" by (simp add: reportsAmbiguous_def)
    show ?thesis
      using n w False amb by (intro exI [of _ "w + n"]) simp
  qed
qed

lemma ascii_not_reportsAmbiguous: "r < 0x80 \<Longrightarrow> \<not> reportsAmbiguous x r"
  by (simp add: reportsAmbiguous_def runeWidthInternal_def)

lemma binarySearchWidthInternal_ambiguous:
  assumes "binarySearchWidthInternal x r = Some (- 1)"
  shows "binarySearch r (ambiguousTableGenerated x) = Some True"
proof -
  obtain w where w: "binarySearch r (wideTableGenerated x) = Some w"
    using binarySearch_total by blast
  obtain z where z: "binarySearch r (zeroWidthTableGenerated x) = Some z"
    using binarySearch_total by blast
  obtain a where a: "binarySearch r (ambiguousTableGenerated x) = Some a"
    using binarySearch_total by blast
  from assms show ?thesis
    by (simp add: binarySearchWidthInternal_def w z a split: if_splits)
qed

lemma reportsAmbiguous_ambiguousClass:
  assumes "reportsAmbiguous x r"
  shows "ambiguousClass x r"
proof -
  from assms have "binarySearchWidthInternal x r = Some (- 1)"
    by (simp add: reportsAmbiguous_def runeWidthInternal_def split: if_splits)
  then show ?thesis
    unfolding ambiguousClass_def by (intro binarySearch_sound binarySearchWidthInternal_ambiguous)
qed

lemma StringWidthWithOptions_toggle_reports:
  "\<exists>w n. StringWidthWithOptions x s [WithEastAsianAmbiguous EAWide] = Some w
         \<and> StringWidthWithOptions x s [WithEastAsianAmbiguous EANarrow] = Some n
         \<and> n \<le> w
         \<and> (w = n \<longleftrightarrow> (\<forall>r \<in> set (runes_of s). \<not> reportsAmbiguous x r))"
proof (cases "isASCIIOnly s")
  case True
  then have "\<forall>r \<in> set (runes_of s). \<not> reportsAmbiguous x r"
    using isASCIIOnly_runes_small ascii_not_reportsAmbiguous by blast
  with True show ?thesis by (simp add: StringWidthWithOptions_def)
next
  case False
  let ?wide = "buildOptions [WithEastAsianAmbiguous EAWide]"
  let ?narrow = "buildOptions [WithEastAsianAmbiguous EANarrow]"
  let ?k = "length (filter (reportsAmbiguous x) (runes_of s))"
  from StringWidthWithOptions_loop_toggle [OF buildOptions_EAWide buildOptions_EANarrow,
      of x "runes_of s" 0 0]
  obtain n where
    n: "StringWidthWithOptions_loop x ?narrow (runes_of s) 0 = Some n"
       "StringWidthWithOptions_loop x ?wide (runes_of s) 0 = Some (n + int ?k)"
    by auto
  have "(?k = 0) \<longleftrightarrow> (\<forall>r \<in> set (runes_of s). \<not> reportsAmbiguous x r)"
    by (simp add: filter_empty_conv)
  with n False show ?thesis by (simp add: StringWidthWithOptions_def)
qed

text \<open>
  Claim C7, as stated, fails in its equivalence. The star U+2605 lies in the ambiguous
  table generated from the sample data, and the string that holds it has the width 2
  with the ambiguous width set to \<open>EAWide\<close> and with it set to \<open>EANarrow\<close>: the hot
  emoji comparison \<open>0x2600..0x26FF\<close> of \<open>runeWidthInternal\<close> claims the code point before
  the ambiguous table is searched.
\<close>

theorem StringWidthWithOptions_ambiguous_toggle_counterexample:
  "runes_of [0xE2, 0x98, 0x85] = [0x2605] \<and> ambiguousClass sampleExternals 0x2605
   \<and> StringWidthWithOptions sampleExternals [0xE2, 0x98, 0x85] [WithEastAsianAmbiguous EAWide]
       = Some 2
   \<and> StringWidthWithOptions sampleExternals [0xE2, 0x98, 0x85] [WithEastAsianAmbiguous EANarrow]
       = Some 2"
proof -
  have r: "runes_of [0xE2, 0x98, 0x85] = [0x2605]"
    by (simp add: rune3_def acceptLo_def acceptHi_def isCont_def)
  have a: "ambiguousClass sampleExternals 0x2605"
    unfolding ambiguousClass_def sampleExternals_tables ambiguousRanges_generated_sample
    by (simp add: inTable_def)
  have "StringWidthWithOptions sampleExternals [0xE2, 0x98, 0x85] opts = Some 2" for opts
    unfolding StringWidthWithOptions_def Let_def r by (simp add: runeWidthInternal_def)
  with r a show ?thesis by simp
qed

text \<open>
  Claim C7, amended. For every string, \<open>StringWidthWithOptions\<close> with the ambiguous
  width set to \<open>EAWide\<close> returns a value at least as large as with \<open>EANarrow\<close>. The two
  values are equal when the string holds no code point of the ambiguous table. On
  tables with the range-table invariants the two values are equal if and only if every
  code point of the string that lies in the ambiguous table is claimed before that
  table is searched, by a comparison of \<open>runeWidthInternal\<close> or by the wide or the
  zero-width table.
\<close>

theorem StringWidthWithOptions_ambiguous_toggle:
  "\<exists>w n. StringWidthWithOptions x s [WithEastAsianAmbiguous EAWide] = Some w
         \<and> StringWidthWithOptions x s [WithEastAsianAmbiguous EANarrow] = Some n
         \<and> n \<le> w
         \<and> ((\<forall>r \<in> set (runes_of s). \<not> ambiguousClass x r) \<longrightarrow> w = n)
         \<and> (rangeTableInv (wideTableGenerated x) \<and> rangeTableInv (zeroWidthTableGenerated x)
              \<and> rangeTableInv (ambiguousTableGenerated x)
            \<longrightarrow> (w = n \<longleftrightarrow>
                  (\<forall>r \<in> set (runes_of s). ambiguousClass x r \<longrightarrow> claimedEarlier x r)))"
proof -
  from StringWidthWithOptions_toggle_reports [of x s] obtain w n where
    wn: "StringWidthWithOptions x s [WithEastAsianAmbiguous EAWide] = Some w"
      "StringWidthWithOptions x s [WithEastAsianAmbiguous EANarrow] = Some n"
      "n \<le> w"
      "w = n \<longleftrightarrow> (\<forall>r \<in> set (runes_of s). \<not> reportsAmbiguous x r)"
    by blast
  have one: "w = n" if "\<forall>r \<in> set (runes_of s). \<not> ambiguousClass x r"
    using that wn(4) reportsAmbiguous_ambiguousClass by blast
  have two: "w = n \<longleftrightarrow> (\<forall>r \<in> set (runes_of s). ambiguousClass x r \<longrightarrow> claimedEarlier x r)"
    if "rangeTableInv (wideTableGenerated x) \<and> rangeTableInv (zeroWidthTableGenerated x)
        \<and> rangeTableInv (ambiguousTableGenerated x)"
    using that wn(4) reportsAmbiguous_iff [of x] by blast
  from wn(1-3) one two show ?thesis by blast
qed

lemma runeWidthInternal_sample_B1: "runeWidthInternal sampleExternals 0xB1 = Some (- 1)"
proof -
  have h: "\<not> internalHotPath 0xB1" by (simp add: internalHotPath_def hotEmojiTier_def)
  have t: "\<not> inTable 0xB1 (wideTableGenerated sampleExternals)"
    "\<not> inTable 0xB1 (zeroWidthTableGenerated sampleExternals)"
    "inTable 0xB1 (ambiguousTableGenerated sampleExternals)"
    unfolding sampleExternals_tables wideRanges_generated_sample zeroWidthRanges_generated_value
      ambiguousRanges_generated_sample
    by (simp_all add: inTable_def)
  show ?thesis
    unfolding runeWidthInternal_not_hot [OF h]
    by (simp add: binarySearchWidthInternal_def binarySearch_inTable sampleExternals_inv t)
qed

text \<open>With the tables generated from the sample data: the plus-minus sign U+00B1 lies
  in the ambiguous table and nothing claims it earlier, width 2 against width 1; U+4E16
  is not in the ambiguous table, and the two widths are equal.\<close>

theorem StringWidthWithOptions_ambiguous_toggle_witness:
  "rangeTableInv (wideTableGenerated sampleExternals)
   \<and> rangeTableInv (zeroWidthTableGenerated sampleExternals)
   \<and> rangeTableInv (ambiguousTableGenerated sampleExternals)
   \<and> StringWidthWithOptions sampleExternals [0xC2, 0xB1] [WithEastAsianAmbiguous EAWide] = Some 2
   \<and> StringWidthWithOptions sampleExternals [0xC2, 0xB1] [WithEastAsianAmbiguous EANarrow] = Some 1
   \<and> ambiguousClass sampleExternals 0xB1 \<and> \<not> claimedEarlier sampleExternals 0xB1
   \<and> \<not> ambiguousClass sampleExternals 0x4E16
   \<and> StringWidthWithOptions sampleExternals [0xE4, 0xB8, 0x96] [WithEastAsianAmbiguous EAWide]
       = StringWidthWithOptions sampleExternals [0xE4, 0xB8, 0x96] [WithEastAsianAmbiguous EANarrow]"
proof -
  note inv = sampleExternals_inv
  have w: "StringWidthWithOptions sampleExternals [0xC2, 0xB1] [WithEastAsianAmbiguous EAWide] = Some 2"
    unfolding StringWidthWithOptions_def Let_def runes_plus_minus
    by (simp add: runeWidthInternal_sample_B1 buildOptions_EAWide)
  have n: "StringWidthWithOptions sampleExternals [0xC2, 0xB1] [WithEastAsianAmbiguous EANarrow] = Some 1"
    unfolding StringWidthWithOptions_def Let_def runes_plus_minus
    by (simp add: runeWidthInternal_sample_B1 buildOptions_EANarrow)
  from StringWidthWithOptions_ambiguous_toggle [of sampleExternals "[0xC2, 0xB1]"] w n inv
  have "\<not> (\<forall>r \<in> set (runes_of [0xC2, 0xB1]).
             ambiguousClass sampleExternals r \<longrightarrow> claimedEarlier sampleExternals r)"
    by auto
  then have b1: "ambiguousClass sampleExternals 0xB1 \<and> \<not> claimedEarlier sampleExternals 0xB1"
    unfolding runes_plus_minus by simp
  have na: "\<not> ambiguousClass sampleExternals 0x4E16"
    unfolding ambiguousClass_def sampleExternals_tables ambiguousRanges_generated_sample
    by (simp add: inTable_def)
  then have "\<forall>r \<in> set (runes_of [0xE4, 0xB8, 0x96]). \<not> ambiguousClass sampleExternals r"
    unfolding runes_shi by simp
  with StringWidthWithOptions_ambiguous_toggle [of sampleExternals "[0xE4, 0xB8, 0x96]"]
  have eq: "StringWidthWithOptions sampleExternals [0xE4, 0xB8, 0x96] [WithEastAsianAmbiguous EAWide]
       = StringWidthWithOptions sampleExternals [0xE4, 0xB8, 0x96] [WithEastAsianAmbiguous EANarrow]"
    by auto
  from inv w n b1 na eq show ?thesis by blast
qed


section \<open>Appending to a string\<close>

text \<open>
  Claim C10. \<open>StringWidth\<close> is not monotone under appending: the string U+4E16 has
  width 2, and with the code point U+FE0E appended it has width 1. So there are a string
  and a single code point such that appending the code point lowers the width.
\<close>

theorem StringWidth_not_monotone:
  "runes_of [0xE4, 0xB8, 0x96] = [0x4E16] \<and> runes_of [0xEF, 0xB8, 0x8E] = [0xFE0E]
   \<and> StringWidth x [0xE4, 0xB8, 0x96] = Some 2
   \<and> StringWidth x ([0xE4, 0xB8, 0x96] @ [0xEF, 0xB8, 0x8E]) = Some 1
   \<and> (\<exists>s c r a b. runes_of c = [r] \<and> StringWidth x s = Some a
          \<and> StringWidth x (s @ c) = Some b \<and> b < a)"
proof -
  have a: "StringWidth x [0xE4, 0xB8, 0x96] = Some 2"
    unfolding StringWidth_def runes_shi
    by (simp add: StringWidth_loop.simps isRegionalIndicator_def RuneWidth_def)
  have b: "StringWidth x ([0xE4, 0xB8, 0x96] @ [0xEF, 0xB8, 0x8E]) = Some 1"
    unfolding StringWidth_def append.simps runes_shi_text
    by (simp add: StringWidth_loop.simps isRegionalIndicator_def)
  have "\<exists>s c r a b. runes_of c = [r] \<and> StringWidth x s = Some a
          \<and> StringWidth x (s @ c) = Some b \<and> b < a"
    using a b runes_text_selector
    by (intro exI [of _ "[0xE4, 0xB8, 0x96]"] exI [of _ "[0xEF, 0xB8, 0x8E]"] exI [of _ "0xFE0E"]
        exI [of _ "2"] exI [of _ "1"]) simp
  with a b runes_shi runes_text_selector show ?thesis by blast
qed


end
